theory Spec2Isabelle
  imports Complex_Main
begin

section \<open>Traffic simulator front end: scene renderer\<close>

text \<open>
  The renderer is the component \<open>SimulationCanvas\<close>.  JavaScript numbers are read as
  real numbers: rounding of IEEE doubles, \<open>NaN\<close> and the infinities are outside the
  model, so a division whose divisor is zero (which JavaScript answers with an infinity or
  \<open>NaN\<close>, HOL with zero) is excluded by hypothesis wherever a statement depends on it.
\<close>

subsection \<open>Snapshot data\<close>

text \<open>
  A property of a JavaScript object is absent (\<open>undefined\<close>), \<open>null\<close> or holds a
  value.  A destructuring default replaces \<open>undefined\<close> only.
\<close>

datatype 'a js_field = Undefined | Null | Val 'a

datatype js_error = TypeError | SyntaxError | AxiosError

record vehicle =
  vx :: real
  vy :: real
  color :: string
  speed :: real
  waiting_time :: real

record light =
  lx :: real
  ly :: real
  state :: string
  direction :: string
  queue_length :: real

record grid_config =
  grid_width :: "real option"
  grid_height :: "real option"

record snapshot =
  vehicles :: "vehicle list js_field"
  traffic_lights :: "light list js_field"
  config :: "grid_config js_field"

subsection \<open>The 2D drawing context\<close>

text \<open>
  The context keeps a drawing state (the part \<open>save\<close> and \<open>restore\<close> push and pop), a
  current path and the bitmap.  The bitmap is kept as the list of paint operations
  applied since it was last cleared entirely; every operation carries the attributes of
  the drawing state that decide its pixels.  The context object of a canvas element is
  created once and then kept, so its drawing state survives from one redraw to the next.
\<close>

record ctx_state =
  fillStyle :: string
  strokeStyle :: string
  lineWidth :: real
  lineDash :: "real list"
  globalAlpha :: real
  font :: string
  textAlign :: string
  textBaseline :: string

datatype path_seg =
  MoveTo real real
| LineTo real real
| Arc real real real real real

text \<open>The text of a label: \<open>speed.toFixed(1)\<close> or \<open>queueLength.toString()\<close>.\<close>

datatype label = ToFixed1 real | ToString real

datatype paint =
  ClearRect real real real real
| FillRect real real real real string real
| StrokeRect real real real real string real "real list" real
| FillPath "path_seg list" string real
| StrokePath "path_seg list" string real "real list" real
| FillText label real real string string string string real

record canvas =
  width :: real
  height :: real
  st :: ctx_state
  saved :: "ctx_state list"
  path :: "path_seg list"
  painted :: "paint list"

definition initial_ctx_state :: ctx_state where
  "initial_ctx_state =
     \<lparr>fillStyle = ''#000000'', strokeStyle = ''#000000'', lineWidth = 1, lineDash = [],
      globalAlpha = 1, font = ''10px sans-serif'', textAlign = ''start'',
      textBaseline = ''alphabetic''\<rparr>"

text \<open>The element \<open><canvas width={800} height={600}>\<close> before anything is drawn.\<close>

definition new_canvas :: canvas where
  "new_canvas =
     \<lparr>width = 800, height = 600, st = initial_ctx_state, saved = [], path = [],
      painted = []\<rparr>"

definition clearRect :: "real \<Rightarrow> real \<Rightarrow> real \<Rightarrow> real \<Rightarrow> canvas \<Rightarrow> canvas" where
  "clearRect x y w h c =
     (if x \<le> 0 \<and> y \<le> 0 \<and> width c \<le> x + w \<and> height c \<le> y + h
      then c\<lparr>painted := []\<rparr>
      else c\<lparr>painted := painted c @ [ClearRect x y w h]\<rparr>)"

definition fillRect :: "real \<Rightarrow> real \<Rightarrow> real \<Rightarrow> real \<Rightarrow> canvas \<Rightarrow> canvas" where
  "fillRect x y w h c =
     c\<lparr>painted := painted c @ [FillRect x y w h (fillStyle (st c)) (globalAlpha (st c))]\<rparr>"

definition strokeRect :: "real \<Rightarrow> real \<Rightarrow> real \<Rightarrow> real \<Rightarrow> canvas \<Rightarrow> canvas" where
  "strokeRect x y w h c =
     c\<lparr>painted := painted c @
        [StrokeRect x y w h (strokeStyle (st c)) (lineWidth (st c)) (lineDash (st c))
           (globalAlpha (st c))]\<rparr>"

definition beginPath :: "canvas \<Rightarrow> canvas" where
  "beginPath c = c\<lparr>path := []\<rparr>"

definition moveTo :: "real \<Rightarrow> real \<Rightarrow> canvas \<Rightarrow> canvas" where
  "moveTo x y c = c\<lparr>path := path c @ [MoveTo x y]\<rparr>"

definition lineTo :: "real \<Rightarrow> real \<Rightarrow> canvas \<Rightarrow> canvas" where
  "lineTo x y c = c\<lparr>path := path c @ [LineTo x y]\<rparr>"

definition arc :: "real \<Rightarrow> real \<Rightarrow> real \<Rightarrow> real \<Rightarrow> real \<Rightarrow> canvas \<Rightarrow> canvas" where
  "arc x y r a0 a1 c = c\<lparr>path := path c @ [Arc x y r a0 a1]\<rparr>"

definition fill :: "canvas \<Rightarrow> canvas" where
  "fill c =
     c\<lparr>painted := painted c @ [FillPath (path c) (fillStyle (st c)) (globalAlpha (st c))]\<rparr>"

definition stroke :: "canvas \<Rightarrow> canvas" where
  "stroke c =
     c\<lparr>painted := painted c @
        [StrokePath (path c) (strokeStyle (st c)) (lineWidth (st c)) (lineDash (st c))
           (globalAlpha (st c))]\<rparr>"

definition fillText :: "label \<Rightarrow> real \<Rightarrow> real \<Rightarrow> canvas \<Rightarrow> canvas" where
  "fillText t x y c =
     c\<lparr>painted := painted c @
        [FillText t x y (fillStyle (st c)) (font (st c)) (textAlign (st c))
           (textBaseline (st c)) (globalAlpha (st c))]\<rparr>"

definition save :: "canvas \<Rightarrow> canvas" where
  "save c = c\<lparr>saved := st c # saved c\<rparr>"

definition restore :: "canvas \<Rightarrow> canvas" where
  "restore c = (case saved c of [] \<Rightarrow> c | s # ss \<Rightarrow> c\<lparr>st := s, saved := ss\<rparr>)"

definition set_fillStyle :: "string \<Rightarrow> canvas \<Rightarrow> canvas" where
  "set_fillStyle v c = c\<lparr>st := (st c)\<lparr>fillStyle := v\<rparr>\<rparr>"

definition set_strokeStyle :: "string \<Rightarrow> canvas \<Rightarrow> canvas" where
  "set_strokeStyle v c = c\<lparr>st := (st c)\<lparr>strokeStyle := v\<rparr>\<rparr>"

definition set_lineWidth :: "real \<Rightarrow> canvas \<Rightarrow> canvas" where
  "set_lineWidth v c = c\<lparr>st := (st c)\<lparr>lineWidth := v\<rparr>\<rparr>"

definition setLineDash :: "real list \<Rightarrow> canvas \<Rightarrow> canvas" where
  "setLineDash v c = c\<lparr>st := (st c)\<lparr>lineDash := v\<rparr>\<rparr>"

definition set_globalAlpha :: "real \<Rightarrow> canvas \<Rightarrow> canvas" where
  "set_globalAlpha v c = c\<lparr>st := (st c)\<lparr>globalAlpha := v\<rparr>\<rparr>"

definition set_font :: "string \<Rightarrow> canvas \<Rightarrow> canvas" where
  "set_font v c = c\<lparr>st := (st c)\<lparr>font := v\<rparr>\<rparr>"

definition set_textAlign :: "string \<Rightarrow> canvas \<Rightarrow> canvas" where
  "set_textAlign v c = c\<lparr>st := (st c)\<lparr>textAlign := v\<rparr>\<rparr>"

definition set_textBaseline :: "string \<Rightarrow> canvas \<Rightarrow> canvas" where
  "set_textBaseline v c = c\<lparr>st := (st c)\<lparr>textBaseline := v\<rparr>\<rparr>"

text \<open>A block of statements, run in order.\<close>

fun run :: "('s \<Rightarrow> 's) list \<Rightarrow> 's \<Rightarrow> 's" where
  "run [] s = s"
| "run (f # fs) s = run fs (f s)"

subsection \<open>The component\<close>

text \<open>
  \<open>const { vehicles = [], traffic_lights: trafficLights = [], config = {} } = simulationState\<close>
  and \<open>const { grid_width: gridWidth = 50, grid_height: gridHeight = 50 } = config\<close>.
  Destructuring \<open>null\<close> raises a TypeError; the defaults replace absent properties.
\<close>

definition dflt :: "'a \<Rightarrow> 'a js_field \<Rightarrow> 'a js_field" where
  "dflt d f = (case f of Undefined \<Rightarrow> Val d | _ \<Rightarrow> f)"

definition destructure_config :: "grid_config js_field \<Rightarrow> js_error + real \<times> real" where
  "destructure_config cfg =
     (case dflt \<lparr>grid_width = None, grid_height = None\<rparr> cfg of
        Val g \<Rightarrow>
          Inr (case grid_width g of None \<Rightarrow> 50 | Some w \<Rightarrow> w,
               case grid_height g of None \<Rightarrow> 50 | Some h \<Rightarrow> h)
      | _ \<Rightarrow> Inl TypeError)"

text \<open>The scaled position, the marker radius and the marker opacity of a vehicle.\<close>

definition scaleX :: "real \<Rightarrow> real \<Rightarrow> real \<Rightarrow> real" where
  "scaleX x gridWidth canvas_width = (x / gridWidth) * canvas_width"

definition scaleY :: "real \<Rightarrow> real \<Rightarrow> real \<Rightarrow> real" where
  "scaleY y gridHeight canvas_height = (y / gridHeight) * canvas_height"

definition marker_size :: "real \<Rightarrow> real" where
  "marker_size spd = max 3 (min 8 (spd * 2))"

definition marker_opacity :: "real \<Rightarrow> real" where
  "marker_opacity waitingTime = (if waitingTime > 0 then 0.7 else 1)"

definition draw_vehicle :: "real \<Rightarrow> real \<Rightarrow> vehicle \<Rightarrow> canvas \<Rightarrow> canvas" where
  "draw_vehicle gridWidth gridHeight v c =
     (let sx = scaleX (vx v) gridWidth (width c);
          sy = scaleY (vy v) gridHeight (height c);
          sz = marker_size (speed v);
          opacity = marker_opacity (waiting_time v)
      in run ([save,
               set_globalAlpha opacity,
               set_fillStyle (color v),
               beginPath,
               arc sx sy sz 0 (pi * 2),
               fill,
               set_strokeStyle ''#fff'',
               set_lineWidth 1,
               stroke]
              @ (if speed v > 0
                 then [set_fillStyle ''#fff'',
                       set_font ''8px Arial'',
                       set_textAlign ''center'',
                       fillText (ToFixed1 (speed v)) sx (sy + sz + 10)]
                 else [])
              @ [restore]) c)"

definition stateColors :: "string \<Rightarrow> string option" where
  "stateColors =
     map_of [(''RED'', ''#ff4444''), (''YELLOW'', ''#ffaa00''), (''GREEN'', ''#44ff44'')]"

text \<open>\<open>now\<close> is the value of \<open>Date.now()\<close> during the redraw.\<close>

definition draw_light :: "real \<Rightarrow> real \<Rightarrow> real \<Rightarrow> light \<Rightarrow> canvas \<Rightarrow> canvas" where
  "draw_light now gridWidth gridHeight l c =
     (let sx = scaleX (lx l) gridWidth (width c);
          sy = scaleY (ly l) gridHeight (height c);
          w = (if direction l = ''horizontal'' then 20 else 8);
          h = (if direction l = ''horizontal'' then 8 else 20)
      in run ([set_fillStyle (case stateColors (state l) of Some col \<Rightarrow> col | None \<Rightarrow> ''#666''),
               fillRect (sx - w / 2) (sy - h / 2) w h,
               set_strokeStyle ''#333'',
               set_lineWidth 2,
               strokeRect (sx - w / 2) (sy - h / 2) w h]
              @ (if state l = ''YELLOW''
                 then [save,
                       set_globalAlpha (0.5 + 0.5 * sin (now / 500)),
                       set_fillStyle ''#fff'',
                       fillRect (sx - w / 2 + 2) (sy - h / 2 + 2) (w - 4) (h - 4),
                       restore]
                 else [])
              @ (if queue_length l > 0
                 then [set_fillStyle ''rgba(255, 100, 100, 0.9)'',
                       beginPath,
                       arc sx (sy - 15) 10 0 (pi * 2),
                       fill,
                       set_fillStyle ''#fff'',
                       set_font ''bold 10px Arial'',
                       set_textAlign ''center'',
                       set_textBaseline ''middle'',
                       fillText (ToString (queue_length l)) sx (sy - 15)]
                 else [])) c)"

text \<open>The static background: the two roads, the junction and the dashed centre lines.\<close>

definition draw_background :: "canvas \<Rightarrow> canvas" where
  "draw_background c =
     (let crossSize = 20
      in run [clearRect 0 0 (width c) (height c),
              set_fillStyle ''#2c3e50'',
              fillRect 0 0 (width c) (height c),
              set_strokeStyle ''#34495e'',
              set_lineWidth 2,
              beginPath,
              moveTo 0 (height c / 2),
              lineTo (width c) (height c / 2),
              stroke,
              beginPath,
              moveTo (width c / 2) 0,
              lineTo (width c / 2) (height c),
              stroke,
              set_fillStyle ''#7f8c8d'',
              fillRect (width c / 2 - crossSize / 2) (height c / 2 - crossSize / 2)
                crossSize crossSize,
              set_strokeStyle ''#ecf0f1'',
              set_lineWidth 1,
              setLineDash [5, 10],
              beginPath,
              moveTo 0 (height c / 2),
              lineTo (width c) (height c / 2),
              stroke,
              beginPath,
              moveTo (width c / 2) 0,
              lineTo (width c / 2) (height c),
              stroke,
              setLineDash []] c)"

text \<open>
  The body of the drawing effect, for a canvas whose context exists: background, then
  \<open>vehicles.forEach\<close>, then \<open>trafficLights.forEach\<close>.
\<close>

definition draw :: "real \<Rightarrow> vehicle list \<Rightarrow> light list \<Rightarrow> real \<Rightarrow> real \<Rightarrow> canvas \<Rightarrow> canvas" where
  "draw now vs ls gridWidth gridHeight c =
     fold (draw_light now gridWidth gridHeight) ls
       (fold (draw_vehicle gridWidth gridHeight) vs (draw_background c))"

text \<open>
  One render of the component followed by its drawing effect.  The render destructures
  the snapshot and evaluates \<open>vehicles.length\<close> for the overlay (which is not modelled
  further), so a \<open>null\<close> in place of \<open>config\<close> or of \<open>vehicles\<close> raises a TypeError
  there.  The effect returns at once while \<open>canvasRef.current\<close> is \<open>None\<close>, the
  element not being mounted; otherwise it draws, and \<open>trafficLights.forEach\<close> raises a
  TypeError when \<open>traffic_lights\<close> is \<open>null\<close>.
\<close>

definition SimulationCanvas :: "snapshot \<Rightarrow> real \<Rightarrow> canvas option \<Rightarrow> js_error + canvas option" where
  "SimulationCanvas simulationState now canvasRef =
     (case destructure_config (config simulationState) of
        Inl e \<Rightarrow> Inl e
      | Inr (gridWidth, gridHeight) \<Rightarrow>
          (case dflt [] (vehicles simulationState) of
             Val vs \<Rightarrow>
               (case canvasRef of
                  None \<Rightarrow> Inr None
                | Some c \<Rightarrow>
                    (case dflt [] (traffic_lights simulationState) of
                       Val ls \<Rightarrow> Inr (Some (draw now vs ls gridWidth gridHeight c))
                     | _ \<Rightarrow> Inl TypeError))
           | _ \<Rightarrow> Inl TypeError))"

text \<open>
  \<open>handleCanvasClick\<close>: \<open>rect\<close> is the bounding rectangle of the element
  (left, top, width, height) and the result is the pair handed to \<open>onCanvasClick\<close>;
  nothing is reported when the element or the callback is missing.
\<close>

record dom_rect =
  left :: real
  top :: real
  rect_width :: real
  rect_height :: real

definition handleCanvasClick ::
  "dom_rect option \<Rightarrow> bool \<Rightarrow> real \<Rightarrow> real \<Rightarrow> real \<Rightarrow> real \<Rightarrow> (real \<times> real) option" where
  "handleCanvasClick canvasRef has_onCanvasClick gridWidth gridHeight clientX clientY =
     (case canvasRef of
        None \<Rightarrow> None
      | Some rect \<Rightarrow>
          if \<not> has_onCanvasClick then None
          else
            (let x = clientX - left rect;
                 y = clientY - top rect;
                 simX = (x / rect_width rect) * gridWidth;
                 simY = (y / rect_height rect) * gridHeight
             in Some (simX, simY)))"


section \<open>Connection manager: the hook \<open>useWebSocket\<close>\<close>

text \<open>
  The hook is modelled with the part of its surroundings that its behaviour depends on:
  the WebSocket objects it creates, the browser's timers, a clock in milliseconds, and the
  rule by which React runs effects.  The surroundings act through events; the code of the
  hook is the handlers these events run.
\<close>

subsection \<open>Inbound messages\<close>

datatype json =
  JNull
| JBool bool
| JNum real
| JStr string
| JArr "json list"
| JObj "(string \<times> json) list"

text \<open>
  Reading a property: \<open>null\<close> raises a TypeError, an object yields the value of the key
  (the last one when \<open>JSON.parse\<close> met the key twice) or \<open>undefined\<close>, written
  \<open>None\<close>, and any other value yields \<open>undefined\<close> for the three keys the client
  reads (\<open>type\<close>, \<open>metrics\<close>, \<open>historical_metrics\<close>).
\<close>

definition get_prop :: "json \<Rightarrow> string \<Rightarrow> js_error + json option" where
  "get_prop v k =
     (case v of
        JNull \<Rightarrow> Inl TypeError
      | JObj kvs \<Rightarrow> Inr (map_of (rev kvs) k)
      | _ \<Rightarrow> Inr None)"

fun truthy :: "json option \<Rightarrow> bool" where
  "truthy None = False"
| "truthy (Some JNull) = False"
| "truthy (Some (JBool b)) = b"
| "truthy (Some (JNum n)) = (n \<noteq> 0)"
| "truthy (Some (JStr t)) = (t \<noteq> [])"
| "truthy (Some (JArr _)) = True"
| "truthy (Some (JObj _)) = True"

text \<open>\<open>v || {}\<close>\<close>

definition or_empty :: "json option \<Rightarrow> json" where
  "or_empty v = (case v of Some j \<Rightarrow> (if truthy v then j else JObj []) | None \<Rightarrow> JObj [])"

subsection \<open>State\<close>

datatype readyState = CONNECTING | OPEN | CLOSING | CLOSED

text \<open>
  A WebSocket object: the simulation its URL names, which is also the \<open>simId\<close> its
  handlers close over, its ready state, and the payloads handed to \<open>send\<close>.
\<close>

record websocket =
  ws_simId :: string
  readyState :: readyState
  outbox :: "string list"

datatype lifecycle = Fresh | Mounted | Unmounted

datatype api_call = StepSimulation string nat | GetSimulationState string

text \<open>The state of the component \<open>App\<close> that the handlers below touch.\<close>

record app =
  simulationState :: json
  metrics :: json
  historicalMetrics :: json
  requests :: "api_call list"

text \<open>
  The hook instance.  \<open>simId\<close>, \<open>onMessage_id\<close> (the identity of the callback passed in)
  and \<open>isRunning\<close> are the arguments of the latest render; \<open>isConnected\<close> and
  \<open>error\<close> are React state; the three refs follow.  \<open>step_effect_deps\<close> and
  \<open>conn_effect_deps\<close> are the dependency values with which the two effects last ran.
  \<open>sockets\<close>, \<open>timeouts\<close> (identifier, due time, the \<open>simId\<close> of the \<open>connect\<close>
  the callback calls), \<open>intervals\<close> (identifier, due time), \<open>next_timer\<close> and \<open>now\<close>
  belong to the browser.  \<open>handler_calls\<close> lists the arguments of every call of
  \<open>onMessage\<close>, \<open>console\<close> the messages given to \<open>console.error\<close>.
\<close>

record 'a hook =
  simId :: "string option"
  onMessage_id :: nat
  isRunning :: bool
  life :: lifecycle
  isConnected :: bool
  error :: "string option"
  wsRef :: "nat option"
  reconnectTimeoutRef :: "nat option"
  stepIntervalRef :: "nat option"
  step_effect_deps :: "(bool \<times> bool) option"
  conn_effect_deps :: "(string option \<times> nat) option"
  sockets :: "websocket list"
  timeouts :: "(nat \<times> nat \<times> string option) list"
  intervals :: "(nat \<times> nat) list"
  next_timer :: nat
  now :: nat
  handler_calls :: "json list"
  console :: "string list"
  app :: 'a

definition init :: "'a \<Rightarrow> 'a hook" where
  "init a =
     \<lparr>simId = None, onMessage_id = 0, isRunning = False, life = Fresh, isConnected = False,
      error = None, wsRef = None, reconnectTimeoutRef = None, stepIntervalRef = None,
      step_effect_deps = None, conn_effect_deps = None, sockets = [], timeouts = [],
      intervals = [], next_timer = 1, now = 0, handler_calls = [], console = [], app = a\<rparr>"

subsection \<open>Browser primitives\<close>

text \<open>
  \<open>setTimeout\<close> and \<open>setInterval\<close> return a fresh positive identifier;
  \<open>clearTimeout\<close> and \<open>clearInterval\<close> remove the timer with the given identifier, if
  there is one.
\<close>

definition clearTimeout :: "nat \<Rightarrow> 'a hook \<Rightarrow> 'a hook" where
  "clearTimeout t s = s\<lparr>timeouts := filter (\<lambda>e. fst e \<noteq> t) (timeouts s)\<rparr>"

definition clearInterval :: "nat \<Rightarrow> 'a hook \<Rightarrow> 'a hook" where
  "clearInterval t s = s\<lparr>intervals := filter (\<lambda>e. fst e \<noteq> t) (intervals s)\<rparr>"

text \<open>
  \<open>ws.close()\<close>: a socket that is connecting or open starts closing; its close event
  comes later, as an event of its own.  On a socket already closing or closed nothing
  happens.
\<close>

definition ws_close :: "nat \<Rightarrow> 'a hook \<Rightarrow> 'a hook" where
  "ws_close i s =
     (if i < length (sockets s) \<and> readyState (sockets s ! i) \<in> {CONNECTING, OPEN}
      then s\<lparr>sockets := (sockets s)[i := (sockets s ! i)\<lparr>readyState := CLOSING\<rparr>]\<rparr>
      else s)"

definition step_msg :: string where
  \<open>step_msg = ''{"type":"step"}''\<close>

subsection \<open>The functions of the hook\<close>

text \<open>A string or \<open>null\<close> in a condition: \<open>null\<close> and the empty string are falsy.\<close>

definition truthy_id :: "string option \<Rightarrow> bool" where
  "truthy_id c = (case c of None \<Rightarrow> False | Some t \<Rightarrow> t \<noteq> [])"

text \<open>\<open>connect\<close>, as created by a render whose \<open>simId\<close> was \<open>c\<close>.\<close>

definition connect :: "string option \<Rightarrow> 'a hook \<Rightarrow> 'a hook" where
  "connect c s =
     (case c of
        None \<Rightarrow> s
      | Some sid \<Rightarrow>
          if sid = [] then s
          else
            (let s1 = (case wsRef s of Some i \<Rightarrow> ws_close i s | None \<Rightarrow> s)
             in s1\<lparr>sockets := sockets s1 @
                      [\<lparr>ws_simId = sid, readyState = CONNECTING, outbox = []\<rparr>],
                    wsRef := Some (length (sockets s1))\<rparr>))"

definition ws_onopen :: "'a hook \<Rightarrow> 'a hook" where
  "ws_onopen s = s\<lparr>isConnected := True, error := None\<rparr>"

text \<open>
  \<open>ws.onmessage\<close>.  \<open>parsed\<close> is the outcome of \<open>JSON.parse(event.data)\<close>: the value,
  or the SyntaxError it raises.  A handler \<open>h\<close> returns the exception it raised, if any,
  with the application state it left.  The first component of the result is the
  exception that leaves the callback.
\<close>

definition try_catch ::
  "('s \<Rightarrow> js_error option \<times> 's) \<Rightarrow> (js_error \<Rightarrow> 's \<Rightarrow> js_error option \<times> 's) \<Rightarrow>
   's \<Rightarrow> js_error option \<times> 's" where
  "try_catch body handler s =
     (case body s of (None, s') \<Rightarrow> (None, s') | (Some e, s') \<Rightarrow> handler e s')"

definition console_error :: "string \<Rightarrow> 'a hook \<Rightarrow> js_error option \<times> 'a hook" where
  "console_error m s = (None, s\<lparr>console := console s @ [m]\<rparr>)"

definition ws_onmessage ::
  "(json \<Rightarrow> 'a \<Rightarrow> js_error option \<times> 'a) \<Rightarrow> js_error + json \<Rightarrow> 'a hook \<Rightarrow>
   js_error option \<times> 'a hook" where
  "ws_onmessage h parsed =
     try_catch
       (\<lambda>s. case parsed of
               Inl e \<Rightarrow> (Some e, s)
             | Inr data \<Rightarrow>
                 (case get_prop data ''type'' of
                    Inl e \<Rightarrow> (Some e, s)
                  | Inr ty \<Rightarrow>
                      if ty = Some (JStr ''ping'') \<or> ty = Some (JStr ''pong'')
                      then (None, s)
                      else
                        (case h data (app s) of
                           (r, a) \<Rightarrow>
                             (r, s\<lparr>handler_calls := handler_calls s @ [data], app := a\<rparr>))))
       (\<lambda>err. console_error ''Error parsing WebSocket message:'')"

definition ws_onerror :: "'a hook \<Rightarrow> 'a hook" where
  "ws_onerror s = s\<lparr>error := Some ''WebSocket connection error'', isConnected := False\<rparr>"

text \<open>\<open>ws.onclose\<close> of a socket whose handlers close over \<open>simId = c\<close>.\<close>

definition ws_onclose :: "string option \<Rightarrow> 'a hook \<Rightarrow> 'a hook" where
  "ws_onclose c s =
     (let s1 = s\<lparr>isConnected := False\<rparr>;
          s2 = (case stepIntervalRef s1 of
                  Some t \<Rightarrow> (clearInterval t s1)\<lparr>stepIntervalRef := None\<rparr>
                | None \<Rightarrow> s1)
      in if truthy_id c
         then s2\<lparr>timeouts := timeouts s2 @ [(next_timer s2, now s2 + 2000, c)],
                 next_timer := next_timer s2 + 1,
                 reconnectTimeoutRef := Some (next_timer s2)\<rparr>
         else s2)"

definition sendStep :: "'a hook \<Rightarrow> 'a hook" where
  "sendStep s =
     (case wsRef s of
        None \<Rightarrow> s
      | Some i \<Rightarrow>
          if i < length (sockets s) \<and> readyState (sockets s ! i) = OPEN
          then s\<lparr>sockets :=
                   (sockets s)[i := (sockets s ! i)\<lparr>outbox := outbox (sockets s ! i) @ [step_msg]\<rparr>]\<rparr>
          else s)"

definition disconnect :: "'a hook \<Rightarrow> 'a hook" where
  "disconnect s =
     (let s1 = (case reconnectTimeoutRef s of
                  Some t \<Rightarrow> (clearTimeout t s)\<lparr>reconnectTimeoutRef := None\<rparr>
                | None \<Rightarrow> s);
          s2 = (case stepIntervalRef s1 of
                  Some t \<Rightarrow> (clearInterval t s1)\<lparr>stepIntervalRef := None\<rparr>
                | None \<Rightarrow> s1)
      in case wsRef s2 of
           Some i \<Rightarrow> (ws_close i s2)\<lparr>wsRef := None, isConnected := False\<rparr>
         | None \<Rightarrow> s2)"

text \<open>The \<open>connect\<close> of the returned object: it clears the pending retry first.\<close>

definition returned_connect :: "'a hook \<Rightarrow> 'a hook" where
  "returned_connect s =
     connect (simId s)
       (case reconnectTimeoutRef s of Some t \<Rightarrow> clearTimeout t s | None \<Rightarrow> s)"

subsection \<open>The two effects\<close>

text \<open>
  The first effect depends on \<open>isRunning\<close> and \<open>isConnected\<close> (\<open>sendStep\<close> never
  changes); its body sees the values of the render it belongs to.
\<close>

definition step_effect_body :: "bool \<Rightarrow> bool \<Rightarrow> 'a hook \<Rightarrow> 'a hook" where
  "step_effect_body isRunning' isConnected' s =
     (if isRunning' \<and> isConnected'
      then s\<lparr>intervals := intervals s @ [(next_timer s, now s + 100)],
             next_timer := next_timer s + 1,
             stepIntervalRef := Some (next_timer s)\<rparr>
      else (case stepIntervalRef s of
              Some t \<Rightarrow> (clearInterval t s)\<lparr>stepIntervalRef := None\<rparr>
            | None \<Rightarrow> s))"

definition step_effect_cleanup :: "'a hook \<Rightarrow> 'a hook" where
  "step_effect_cleanup s =
     (case stepIntervalRef s of Some t \<Rightarrow> clearInterval t s | None \<Rightarrow> s)"

text \<open>
  The second effect depends on \<open>simId\<close>, \<open>connect\<close> and \<open>disconnect\<close>; \<open>connect\<close>
  changes with \<open>simId\<close> and with the identity of \<open>onMessage\<close>, \<open>disconnect\<close> never.
  Its cleanup is the one returned by the run for \<open>simId = c\<close>.
\<close>

definition conn_effect_body :: "string option \<Rightarrow> 'a hook \<Rightarrow> 'a hook" where
  "conn_effect_body c s = (if truthy_id c then connect c s else s)"

definition conn_effect_cleanup :: "string option \<Rightarrow> 'a hook \<Rightarrow> 'a hook" where
  "conn_effect_cleanup c s =
     (if truthy_id c then disconnect s
      else (case reconnectTimeoutRef s of Some t \<Rightarrow> clearTimeout t s | None \<Rightarrow> s))"

text \<open>
  React after a render: of the effects whose dependencies changed, first the cleanups
  of their previous runs, in order, then their bodies, in order.
\<close>

definition commit :: "'a hook \<Rightarrow> 'a hook" where
  "commit s =
     (let isRunning' = isRunning s;
          isConnected' = isConnected s;
          run1 = (step_effect_deps s \<noteq> Some (isRunning', isConnected'));
          run2 = (conn_effect_deps s \<noteq> Some (simId s, onMessage_id s));
          s1 = (if run1 \<and> step_effect_deps s \<noteq> None then step_effect_cleanup s else s);
          s2 = (if run2
                then (case conn_effect_deps s of
                        Some (c, _) \<Rightarrow> conn_effect_cleanup c s1
                      | None \<Rightarrow> s1)
                else s1);
          s3 = (if run1
                then (step_effect_body isRunning' isConnected' s2)
                       \<lparr>step_effect_deps := Some (isRunning', isConnected')\<rparr>
                else s2)
      in if run2
         then (conn_effect_body (simId s) s3)
                \<lparr>conn_effect_deps := Some (simId s, onMessage_id s)\<rparr>
         else s3)"

text \<open>
  A change of React state made while the effects ran (\<open>disconnect\<close> may clear
  \<open>isConnected\<close>) renders the component once more.  Renders and their effects are
  taken to complete before the next event is handled, and to happen only while the
  component is mounted.
\<close>

definition rerender :: "'a hook \<Rightarrow> 'a hook" where
  "rerender s =
     (if life s = Mounted
      then (let s1 = commit s in if isConnected s1 \<noteq> isConnected s then commit s1 else s1)
      else s)"

definition unmount :: "'a hook \<Rightarrow> 'a hook" where
  "unmount s =
     (let s1 = (if step_effect_deps s \<noteq> None then step_effect_cleanup s else s);
          s2 = (case conn_effect_deps s of
                  Some (c, _) \<Rightarrow> conn_effect_cleanup c s1
                | None \<Rightarrow> s1)
      in s2\<lparr>life := Unmounted\<rparr>)"

subsection \<open>Events\<close>

text \<open>
  \<open>Render\<close> is a render of the owner with the three arguments of the hook (the first
  one mounts it); \<open>CallConnect\<close>, \<open>CallDisconnect\<close> and \<open>CallSendStep\<close> are calls of the
  returned functions; the \<open>Ws\<close> events are dispatched by the browser on the socket with
  the given index; \<open>Elapse\<close> lets time pass; \<open>FireTimeout\<close> and \<open>FireInterval\<close> run the
  callback of a timer, which the browser does no earlier than the timer is due.  An
  interval is due again 100 ms after it was due.
\<close>

datatype event =
  Render "string option" nat bool
| Unmount
| CallConnect
| CallDisconnect
| CallSendStep
| WsOpen nat
| WsMessage nat "js_error + json"
| WsError nat
| WsClose nat
| Elapse nat
| FireTimeout nat
| FireInterval nat

fun enabled :: "event \<Rightarrow> 'a hook \<Rightarrow> bool" where
  "enabled (Render c m r) s = (life s \<noteq> Unmounted)"
| "enabled Unmount s = (life s = Mounted)"
| "enabled CallConnect s = (life s = Mounted)"
| "enabled CallDisconnect s = (life s = Mounted)"
| "enabled CallSendStep s = (life s = Mounted)"
| "enabled (WsOpen i) s = (i < length (sockets s) \<and> readyState (sockets s ! i) = CONNECTING)"
| "enabled (WsMessage i d) s = (i < length (sockets s) \<and> readyState (sockets s ! i) = OPEN)"
| "enabled (WsError i) s = (i < length (sockets s) \<and> readyState (sockets s ! i) \<noteq> CLOSED)"
| "enabled (WsClose i) s = (i < length (sockets s) \<and> readyState (sockets s ! i) \<noteq> CLOSED)"
| "enabled (Elapse d) s = True"
| "enabled (FireTimeout t) s = (\<exists>e \<in> set (timeouts s). fst e = t \<and> fst (snd e) \<le> now s)"
| "enabled (FireInterval t) s = (\<exists>e \<in> set (intervals s). fst e = t \<and> snd e \<le> now s)"

definition set_readyState :: "nat \<Rightarrow> readyState \<Rightarrow> 'a hook \<Rightarrow> 'a hook" where
  "set_readyState i r s = s\<lparr>sockets := (sockets s)[i := (sockets s ! i)\<lparr>readyState := r\<rparr>]\<rparr>"

definition fire_timeout :: "nat \<Rightarrow> 'a hook \<Rightarrow> 'a hook" where
  "fire_timeout t s =
     (case filter (\<lambda>e. fst e = t) (timeouts s) of
        [] \<Rightarrow> s
      | e # _ \<Rightarrow> connect (snd (snd e)) (clearTimeout t s))"

definition fire_interval :: "nat \<Rightarrow> 'a hook \<Rightarrow> 'a hook" where
  "fire_interval t s =
     sendStep (s\<lparr>intervals := map (\<lambda>e. if fst e = t then (t, snd e + 100) else e) (intervals s)\<rparr>)"

fun handle :: "(json \<Rightarrow> 'a \<Rightarrow> js_error option \<times> 'a) \<Rightarrow> event \<Rightarrow> 'a hook \<Rightarrow> 'a hook" where
  "handle h (Render c m r) s =
     rerender (s\<lparr>simId := c, onMessage_id := m, isRunning := r, life := Mounted\<rparr>)"
| "handle h Unmount s = unmount s"
| "handle h CallConnect s = rerender (returned_connect s)"
| "handle h CallDisconnect s = rerender (disconnect s)"
| "handle h CallSendStep s = sendStep s"
| "handle h (WsOpen i) s = rerender (ws_onopen (set_readyState i OPEN s))"
| "handle h (WsMessage i d) s = rerender (snd (ws_onmessage h d s))"
| "handle h (WsError i) s = rerender (ws_onerror s)"
| "handle h (WsClose i) s =
     rerender (ws_onclose (Some (ws_simId (sockets s ! i))) (set_readyState i CLOSED s))"
| "handle h (Elapse d) s = s\<lparr>now := now s + d\<rparr>"
| "handle h (FireTimeout t) s = rerender (fire_timeout t s)"
| "handle h (FireInterval t) s = rerender (fire_interval t s)"

definition step :: "(json \<Rightarrow> 'a \<Rightarrow> js_error option \<times> 'a) \<Rightarrow> event \<Rightarrow> 'a hook \<Rightarrow> 'a hook option" where
  "step h e s = (if enabled e s then Some (handle h e s) else None)"

fun exec :: "(json \<Rightarrow> 'a \<Rightarrow> js_error option \<times> 'a) \<Rightarrow> event list \<Rightarrow> 'a hook \<Rightarrow> 'a hook option" where
  "exec h [] s = Some s"
| "exec h (e # es) s = (case step h e s of None \<Rightarrow> None | Some s' \<Rightarrow> exec h es s')"

section \<open>Session orchestrator: the component \<open>App\<close>\<close>

text \<open>The callback \<open>App\<close> passes to the hook as \<open>onMessage\<close>.\<close>

definition App_onMessage :: "json \<Rightarrow> app \<Rightarrow> js_error option \<times> app" where
  "App_onMessage data a =
     (let a1 = a\<lparr>simulationState := data\<rparr>
      in case get_prop data ''metrics'' of
           Inl e \<Rightarrow> (Some e, a1)
         | Inr m \<Rightarrow>
             (case get_prop data ''historical_metrics'' of
                Inl e \<Rightarrow> (Some e, a1\<lparr>metrics := or_empty m\<rparr>)
              | Inr hm \<Rightarrow> (None, a1\<lparr>metrics := or_empty m, historicalMetrics := or_empty hm\<rparr>)))"

text \<open>
  \<open>handleStep\<close>.  \<open>simulationId\<close> is the \<open>simId\<close> handed to the hook.  The two
  requests of the Control Client are recorded in \<open>requests\<close>; \<open>stepped\<close> and \<open>fetched\<close>
  are their outcomes, the rejection or the \<open>data\<close> of the response.  A rejected request
  ends the \<open>try\<close> block, and the \<open>catch\<close> block logs it.
\<close>

definition handleStep :: "js_error + unit \<Rightarrow> js_error + json \<Rightarrow> app hook \<Rightarrow> app hook" where
  "handleStep stepped fetched s =
     (case simId s of
        None \<Rightarrow> s
      | Some sid \<Rightarrow>
          if sid = [] then s
          else if isConnected s then sendStep s
          else
            (let s1 = s\<lparr>app := (app s)\<lparr>requests := requests (app s) @ [StepSimulation sid 10]\<rparr>\<rparr>
             in case stepped of
                  Inl e \<Rightarrow> s1\<lparr>console := console s1 @ [''Error stepping simulation:'']\<rparr>
                | Inr _ \<Rightarrow>
                    (let s2 = s1\<lparr>app := (app s1)\<lparr>requests := requests (app s1) @ [GetSimulationState sid]\<rparr>\<rparr>
                     in case fetched of
                          Inl e \<Rightarrow> s2\<lparr>console := console s2 @ [''Error stepping simulation:'']\<rparr>
                        | Inr data \<Rightarrow> s2\<lparr>app := (app s2)\<lparr>simulationState := data\<rparr>\<rparr>)))"


section \<open>Notions used in the statements\<close>

subsection \<open>Renderer\<close>

text \<open>
  What one vehicle adds to the bitmap: a filled disc of radius \<open>sz\<close> at \<open>(sx, sy)\<close> in
  colour \<open>col\<close>, its white outline and, for a moving vehicle, the speed label below it,
  all with opacity \<open>alpha\<close>.
\<close>

definition vehicle_paints ::
  "real \<Rightarrow> real \<Rightarrow> real \<Rightarrow> real \<Rightarrow> string \<Rightarrow> real \<Rightarrow> real list \<Rightarrow> string \<Rightarrow> paint list" where
  "vehicle_paints sx sy sz alpha col spd dash baseline =
     [FillPath [Arc sx sy sz 0 (pi * 2)] col alpha,
      StrokePath [Arc sx sy sz 0 (pi * 2)] ''#fff'' 1 dash alpha]
     @ (if spd > 0
        then [FillText (ToFixed1 spd) sx (sy + sz + 10) ''#fff'' ''8px Arial'' ''center''
                baseline alpha]
        else [])"

text \<open>
  What one signal adds to the bitmap: its housing, a rectangle of 20 by 8 or 8 by 20
  centred at \<open>(sx, sy)\<close> in the colour of its state, the outline of the housing, for a
  yellow signal the blinking overlay, and for a signal with a queue the badge above it with
  the length of the queue.
\<close>

definition light_paints :: "real \<Rightarrow> real \<Rightarrow> light \<Rightarrow> real \<Rightarrow> real \<Rightarrow> real list \<Rightarrow> paint list" where
  "light_paints sx sy l tm alpha dash =
     (let w = (if direction l = ''horizontal'' then 20 else 8);
          h = (if direction l = ''horizontal'' then 8 else 20)
      in [FillRect (sx - w / 2) (sy - h / 2) w h
            (if state l = ''RED'' then ''#ff4444''
             else if state l = ''YELLOW'' then ''#ffaa00''
             else if state l = ''GREEN'' then ''#44ff44'' else ''#666'') alpha,
          StrokeRect (sx - w / 2) (sy - h / 2) w h ''#333'' 2 dash alpha]
         @ (if state l = ''YELLOW''
            then [FillRect (sx - w / 2 + 2) (sy - h / 2 + 2) (w - 4) (h - 4) ''#fff''
                    (0.5 + 0.5 * sin (tm / 500))]
            else [])
         @ (if queue_length l > 0
            then [FillPath [Arc sx (sy - 15) 10 0 (pi * 2)] ''rgba(255, 100, 100, 0.9)'' alpha,
                  FillText (ToString (queue_length l)) sx (sy - 15) ''#fff'' ''bold 10px Arial''
                    ''center'' ''middle'' alpha]
            else []))"

text \<open>A paint operation without the text baseline it was made with.\<close>

definition forget_baseline :: "paint \<Rightarrow> paint" where
  "forget_baseline p =
     (case p of FillText t x y fs fo al bl a \<Rightarrow> FillText t x y fs fo al [] a | _ \<Rightarrow> p)"

text \<open>
  Two canvases agree when they have the same size and bitmap and their drawing states
  coincide in the attributes a redraw reads before it sets them.
\<close>

definition agree :: "canvas \<Rightarrow> canvas \<Rightarrow> bool" where
  "agree c1 c2 \<longleftrightarrow>
     width c1 = width c2 \<and> height c1 = height c2 \<and> painted c1 = painted c2 \<and>
     fillStyle (st c1) = fillStyle (st c2) \<and> strokeStyle (st c1) = strokeStyle (st c2) \<and>
     lineWidth (st c1) = lineWidth (st c2) \<and> lineDash (st c1) = lineDash (st c2) \<and>
     globalAlpha (st c1) = globalAlpha (st c2) \<and> textBaseline (st c1) = textBaseline (st c2)"

definition agree_upto_baseline :: "canvas \<Rightarrow> canvas \<Rightarrow> bool" where
  "agree_upto_baseline c1 c2 \<longleftrightarrow>
     width c1 = width c2 \<and> height c1 = height c2 \<and>
     map forget_baseline (painted c1) = map forget_baseline (painted c2) \<and>
     fillStyle (st c1) = fillStyle (st c2) \<and> strokeStyle (st c1) = strokeStyle (st c2) \<and>
     lineWidth (st c1) = lineWidth (st c2) \<and> lineDash (st c1) = lineDash (st c2) \<and>
     globalAlpha (st c1) = globalAlpha (st c2)"

text \<open>
  A history is the list of the snapshots delivered so far, each with the clock reading
  of its redraw.  Every delivered snapshot is a freshly parsed object, so the drawing
  effect runs for each; a render that raises ends the history.
\<close>

definition redraw :: "snapshot \<times> real \<Rightarrow> canvas \<Rightarrow> js_error + canvas" where
  "redraw sn c =
     (case SimulationCanvas (fst sn) (snd sn) (Some c) of
        Inl e \<Rightarrow> Inl e
      | Inr None \<Rightarrow> Inr c
      | Inr (Some c') \<Rightarrow> Inr c')"

fun redraws :: "(snapshot \<times> real) list \<Rightarrow> canvas \<Rightarrow> js_error + canvas" where
  "redraws [] c = Inr c"
| "redraws (sn # h) c = (case redraw sn c of Inl e \<Rightarrow> Inl e | Inr c' \<Rightarrow> redraws h c')"

definition surface_after :: "(snapshot \<times> real) list \<Rightarrow> js_error + paint list" where
  "surface_after h = map_sum id painted (redraws h new_canvas)"

definition baseline_after :: "(snapshot \<times> real) list \<Rightarrow> js_error + string" where
  "baseline_after h = map_sum id (\<lambda>c. textBaseline (st c)) (redraws h new_canvas)"

text \<open>Three snapshots: a moving vehicle, a signal with a queue, a yellow signal.\<close>

definition S_car :: snapshot where
  "S_car =
     \<lparr>vehicles = Val [\<lparr>vx = 25, vy = 10, color = ''#3498db'', speed = 2, waiting_time = 0\<rparr>],
      traffic_lights = Val [], config = Undefined\<rparr>"

definition S_queue :: snapshot where
  "S_queue =
     \<lparr>vehicles = Val [],
      traffic_lights =
        Val [\<lparr>lx = 25, ly = 20, state = ''RED'', direction = ''horizontal'', queue_length = 3\<rparr>],
      config = Undefined\<rparr>"

definition S_yellow :: snapshot where
  "S_yellow =
     \<lparr>vehicles = Val [],
      traffic_lights =
        Val [\<lparr>lx = 25, ly = 20, state = ''YELLOW'', direction = ''vertical'', queue_length = 0\<rparr>],
      config = Undefined\<rparr>"

subsection \<open>Connection manager\<close>

text \<open>The state of \<open>App\<close> before any snapshot has arrived.\<close>

definition app0 :: app where
  "app0 =
     \<lparr>simulationState = JObj [], metrics = JObj [], historicalMetrics = JObj [], requests = []\<rparr>"

text \<open>
  The channel is open when the socket held in \<open>wsRef\<close> is in state \<open>OPEN\<close>, which is
  the test \<open>sendStep\<close> makes; the manager is Connected when, in addition, the hook reports
  \<open>isConnected\<close>, which is the test the pacing effect makes.  \<open>sent_count\<close> is the
  number of payloads sent so far, over all sockets.
\<close>

definition channel_open :: "'a hook \<Rightarrow> bool" where
  "channel_open s =
     (case wsRef s of
        None \<Rightarrow> False
      | Some i \<Rightarrow> i < length (sockets s) \<and> readyState (sockets s ! i) = OPEN)"

definition Connected :: "'a hook \<Rightarrow> bool" where
  "Connected s \<longleftrightarrow> isConnected s \<and> channel_open s"

definition sent_count :: "'a hook \<Rightarrow> nat" where
  "sent_count s = sum_list (map (\<lambda>w. length (outbox w)) (sockets s))"

text \<open>
  Invariants of the hook.  \<open>wk\<close>: there is at most one interval, and \<open>stepIntervalRef\<close>
  holds its identifier.  \<open>single_interval\<close>: moreover an interval exists only while the
  component is mounted and the pacing effect last ran with both flags set.  \<open>settled\<close>:
  while the component is mounted, both effects have run for the current values of their
  dependencies.
\<close>

definition wk :: "'a hook \<Rightarrow> bool" where
  "wk s \<longleftrightarrow>
     length (intervals s) \<le> 1 \<and> (\<forall>e \<in> set (intervals s). stepIntervalRef s = Some (fst e))"

definition single_interval :: "'a hook \<Rightarrow> bool" where
  "single_interval s \<longleftrightarrow>
     wk s \<and> (intervals s = [] \<or> (step_effect_deps s = Some (True, True) \<and> life s = Mounted))"

definition settled :: "'a hook \<Rightarrow> bool" where
  "settled s \<longleftrightarrow>
     life s \<noteq> Mounted \<or>
     (step_effect_deps s = Some (isRunning s, isConnected s) \<and>
      conn_effect_deps s = Some (simId s, onMessage_id s))"

definition hook_inv :: "'a hook \<Rightarrow> bool" where
  "hook_inv s \<longleftrightarrow> single_interval s \<and> settled s"

text \<open>
  Five states of a hook mounted for the simulation \<open>sim1\<close>: while its socket is
  connecting, once the socket is open, when the running flag has just been set, 100 ms
  later, and, from the second one, after a call of the returned \<open>connect\<close>, which leaves
  the first socket closing and a second one connecting while \<open>isConnected\<close> still holds.
\<close>

definition example_connecting :: "app hook" where
  "example_connecting =
     \<lparr>simId = Some ''sim1'', onMessage_id = 0, isRunning = False, life = Mounted,
      isConnected = False, error = None, wsRef = Some 0, reconnectTimeoutRef = None,
      stepIntervalRef = None, step_effect_deps = Some (False, False),
      conn_effect_deps = Some (Some ''sim1'', 0),
      sockets = [\<lparr>ws_simId = ''sim1'', readyState = CONNECTING, outbox = []\<rparr>],
      timeouts = [], intervals = [], next_timer = 1, now = 0, handler_calls = [], console = [],
      app = app0\<rparr>"

definition example_connected :: "app hook" where
  "example_connected =
     example_connecting
       \<lparr>isConnected := True, step_effect_deps := Some (False, True),
        sockets := [\<lparr>ws_simId = ''sim1'', readyState = OPEN, outbox = []\<rparr>]\<rparr>"

definition example_started :: "app hook" where
  "example_started =
     example_connected
       \<lparr>isRunning := True, stepIntervalRef := Some 1, step_effect_deps := Some (True, True),
        intervals := [(1, 100)], next_timer := 2\<rparr>"

definition example_running :: "app hook" where
  "example_running = example_started\<lparr>now := 100\<rparr>"

definition example_stale :: "app hook" where
  "example_stale =
     example_connected
       \<lparr>wsRef := Some 1,
        sockets := [\<lparr>ws_simId = ''sim1'', readyState = CLOSING, outbox = []\<rparr>,
                    \<lparr>ws_simId = ''sim1'', readyState = CONNECTING, outbox = []\<rparr>]\<rparr>"

section \<open>Renderer: proofs\<close>

lemmas ctx_defs = clearRect_def fillRect_def strokeRect_def beginPath_def moveTo_def lineTo_def
  arc_def fill_def stroke_def fillText_def save_def restore_def set_fillStyle_def
  set_strokeStyle_def set_lineWidth_def setLineDash_def set_globalAlpha_def set_font_def
  set_textAlign_def set_textBaseline_def

lemmas render_defs = surface_after_def baseline_after_def redraw_def SimulationCanvas_def
  destructure_config_def dflt_def draw_def draw_background_def draw_light_def draw_vehicle_def
  Let_def ctx_defs new_canvas_def initial_ctx_state_def scaleX_def scaleY_def marker_size_def
  marker_opacity_def stateColors_def

lemma draw_vehicle_eq:
  "draw_vehicle gw gh v c =
     c\<lparr>path := [Arc (scaleX (vx v) gw (width c)) (scaleY (vy v) gh (height c))
                  (marker_size (speed v)) 0 (pi * 2)],
       painted := painted c @
         vehicle_paints (scaleX (vx v) gw (width c)) (scaleY (vy v) gh (height c))
           (marker_size (speed v)) (marker_opacity (waiting_time v)) (color v) (speed v)
           (lineDash (st c)) (textBaseline (st c))\<rparr>"
  by (simp add: draw_vehicle_def Let_def ctx_defs vehicle_paints_def)

lemma draw_vehicle_keeps:
  "width (draw_vehicle gw gh v c) = width c"
  "height (draw_vehicle gw gh v c) = height c"
  "st (draw_vehicle gw gh v c) = st c"
  "saved (draw_vehicle gw gh v c) = saved c"
  by (simp_all add: draw_vehicle_eq)

lemma fold_draw_vehicle_keeps:
  "width (fold (draw_vehicle gw gh) vs c) = width c"
  "height (fold (draw_vehicle gw gh) vs c) = height c"
  "st (fold (draw_vehicle gw gh) vs c) = st c"
  "saved (fold (draw_vehicle gw gh) vs c) = saved c"
  by (induction vs arbitrary: c) (simp_all add: draw_vehicle_keeps)

lemma painted_fold_draw_vehicle:
  "painted (fold (draw_vehicle gw gh) vs c) =
     painted c @ concat (map (\<lambda>v. vehicle_paints (scaleX (vx v) gw (width c))
        (scaleY (vy v) gh (height c)) (marker_size (speed v)) (marker_opacity (waiting_time v))
        (color v) (speed v) (lineDash (st c)) (textBaseline (st c))) vs)"
proof (induction vs arbitrary: c)
  case Nil
  show ?case by simp
next
  case (Cons v vs)
  show ?case
    by (simp add: Cons.IH draw_vehicle_keeps) (simp add: draw_vehicle_eq)
qed

lemma draw_light_keeps:
  "width (draw_light tm gw gh l c) = width c"
  "height (draw_light tm gw gh l c) = height c"
  "saved (draw_light tm gw gh l c) = saved c"
  "globalAlpha (st (draw_light tm gw gh l c)) = globalAlpha (st c)"
  "lineDash (st (draw_light tm gw gh l c)) = lineDash (st c)"
  by (simp_all add: draw_light_def Let_def ctx_defs)

lemma painted_draw_light_mono:
  "set (painted c) \<subseteq> set (painted (draw_light tm gw gh l c))"
  by (auto simp add: draw_light_def Let_def ctx_defs)

lemma fold_draw_light_keeps:
  "width (fold (draw_light tm gw gh) ls c) = width c"
  "height (fold (draw_light tm gw gh) ls c) = height c"
  "saved (fold (draw_light tm gw gh) ls c) = saved c"
  "globalAlpha (st (fold (draw_light tm gw gh) ls c)) = globalAlpha (st c)"
  "lineDash (st (fold (draw_light tm gw gh) ls c)) = lineDash (st c)"
  by (induction ls arbitrary: c) (simp_all add: draw_light_keeps)

lemma painted_fold_draw_light_mono:
  "set (painted c) \<subseteq> set (painted (fold (draw_light tm gw gh) ls c))"
proof (induction ls arbitrary: c)
  case Nil
  show ?case by simp
next
  case (Cons l ls)
  have "set (painted c) \<subseteq> set (painted (draw_light tm gw gh l c))"
    by (rule painted_draw_light_mono)
  also have "\<dots> \<subseteq> set (painted (fold (draw_light tm gw gh) ls (draw_light tm gw gh l c)))"
    by (rule Cons.IH)
  finally show ?case by simp
qed

lemma draw_background_keeps:
  "width (draw_background c) = width c"
  "height (draw_background c) = height c"
  "saved (draw_background c) = saved c"
  "globalAlpha (st (draw_background c)) = globalAlpha (st c)"
  "textBaseline (st (draw_background c)) = textBaseline (st c)"
  "lineDash (st (draw_background c)) = []"
  by (simp_all add: draw_background_def Let_def ctx_defs)

lemma draw_keeps:
  "width (draw tm vs ls gw gh c) = width c"
  "height (draw tm vs ls gw gh c) = height c"
  "globalAlpha (st (draw tm vs ls gw gh c)) = globalAlpha (st c)"
  "lineDash (st (draw tm vs ls gw gh c)) = []"
  by (simp_all add: draw_def fold_draw_light_keeps fold_draw_vehicle_keeps draw_background_keeps)

lemma vehicle_in_draw:
  assumes "v \<in> set vs"
  shows "set (vehicle_paints (scaleX (vx v) gw (width c)) (scaleY (vy v) gh (height c))
            (marker_size (speed v)) (marker_opacity (waiting_time v)) (color v) (speed v) []
            (textBaseline (st c)))
         \<subseteq> set (painted (draw tm vs ls gw gh c))"
proof -
  let ?b = "draw_background c"
  let ?f = "\<lambda>v. vehicle_paints (scaleX (vx v) gw (width ?b)) (scaleY (vy v) gh (height ?b))
        (marker_size (speed v)) (marker_opacity (waiting_time v)) (color v) (speed v)
        (lineDash (st ?b)) (textBaseline (st ?b))"
  have "set (?f v) \<subseteq> set (concat (map ?f vs))"
    using assms by auto
  also have "\<dots> \<subseteq> set (painted (fold (draw_vehicle gw gh) vs ?b))"
    by (simp add: painted_fold_draw_vehicle)
  also have "\<dots> \<subseteq> set (painted (draw tm vs ls gw gh c))"
    unfolding draw_def by (rule painted_fold_draw_light_mono)
  finally show ?thesis by (simp add: draw_background_keeps)
qed

lemma draw_light_eq:
  "painted (draw_light tm gw gh l c) =
     painted c @ light_paints (scaleX (lx l) gw (width c)) (scaleY (ly l) gh (height c)) l tm
       (globalAlpha (st c)) (lineDash (st c))"
  by (simp add: draw_light_def light_paints_def Let_def ctx_defs stateColors_def)

lemma painted_fold_draw_light:
  "painted (fold (draw_light tm gw gh) ls c) =
     painted c @ concat (map (\<lambda>l. light_paints (scaleX (lx l) gw (width c))
        (scaleY (ly l) gh (height c)) l tm (globalAlpha (st c)) (lineDash (st c))) ls)"
proof (induction ls arbitrary: c)
  case Nil
  show ?case by simp
next
  case (Cons l ls)
  show ?case
    by (simp add: Cons.IH draw_light_keeps) (simp add: draw_light_eq)
qed

lemma painted_draw:
  "painted (draw tm vs ls gw gh c) =
     painted (draw_background c) @
     concat (map (\<lambda>v. vehicle_paints (scaleX (vx v) gw (width c)) (scaleY (vy v) gh (height c))
        (marker_size (speed v)) (marker_opacity (waiting_time v)) (color v) (speed v) []
        (textBaseline (st c))) vs) @
     concat (map (\<lambda>l. light_paints (scaleX (lx l) gw (width c)) (scaleY (ly l) gh (height c)) l tm
        (globalAlpha (st c)) []) ls)"
  by (simp add: draw_def painted_fold_draw_light painted_fold_draw_vehicle fold_draw_vehicle_keeps
      draw_background_keeps)

lemma light_in_draw:
  assumes "l \<in> set ls"
  shows "set (light_paints (scaleX (lx l) gw (width c)) (scaleY (ly l) gh (height c)) l tm
            (globalAlpha (st c)) [])
         \<subseteq> set (painted (draw tm vs ls gw gh c))"
  using assms by (auto simp: painted_draw)

lemma SimulationCanvas_draw:
  "SimulationCanvas
     \<lparr>vehicles = Val vs, traffic_lights = Val ls,
      config = Val \<lparr>grid_width = Some gw, grid_height = Some gh\<rparr>\<rparr> tm (Some c) =
   Inr (Some (draw tm vs ls gw gh c))"
  by (simp add: SimulationCanvas_def destructure_config_def dflt_def)

subsection \<open>Positions\<close>

text \<open>
  C5.  With a grid of width \<open>w > 0\<close> and height \<open>h > 0\<close> and a surface of width
  \<open>sw > 0\<close> and height \<open>sh > 0\<close>: every vehicle and every signal of a snapshot, however
  many there are, is drawn at \<open>((x / w) * surface width, (y / h) * surface height)\<close>: the
  marker of a vehicle is centred there, the outline of a signal's housing is centred
  there, and the bitmap after a redraw is the background followed by the paint operations
  of each vehicle and then of each signal, all placed at the scaled position of the
  entity, and this bitmap is what the component leaves for a snapshot with these
  vehicles, signals and grid size; a click at the
  surface point \<open>(cx, cy)\<close>, that is at client position \<open>(left + cx, top + cy)\<close>, is
  reported as grid position \<open>((cx / sw) * w, (cy / sh) * h)\<close>; the two maps are inverse to
  each other; \<open>x = 25\<close> on a grid of width 50 lies at half the surface width; and a click
  at the centre of the surface on a 100 by 100 grid is reported as \<open>(50, 50)\<close>.  The
  drawing reads the surface size from the canvas element (its bitmap), the click from the
  bounding rectangle of the element, over which the browser stretches the bitmap: a point
  drawn at a fraction of the bitmap's width is shown at the same fraction of the
  rectangle's width, which is its position under the map with the rectangle's width.
\<close>

theorem grid_and_surface_positions:
  assumes "0 < w" and "0 < h" and "0 < sw" and "0 < sh" and "0 < width c" and "0 < height c"
  shows "(v \<in> set vs \<longrightarrow>
            FillPath [Arc ((vx v / w) * width c) ((vy v / h) * height c) (marker_size (speed v))
               0 (pi * 2)] (color v) (marker_opacity (waiting_time v))
            \<in> set (painted (draw tm vs ls w h c))) \<and>
         (sg \<in> set ls \<longrightarrow>
            (let lw = (if direction sg = ''horizontal'' then 20 else 8);
                 lh = (if direction sg = ''horizontal'' then 8 else 20)
             in StrokeRect ((lx sg / w) * width c - lw / 2) ((ly sg / h) * height c - lh / 2)
                  lw lh ''#333'' 2 [] (globalAlpha (st c)))
            \<in> set (painted (draw tm vs ls w h c))) \<and>
         painted (draw tm vs ls w h c) =
           painted (draw_background c) @
           concat (map (\<lambda>v. vehicle_paints ((vx v / w) * width c) ((vy v / h) * height c)
              (marker_size (speed v)) (marker_opacity (waiting_time v)) (color v) (speed v) []
              (textBaseline (st c))) vs) @
           concat (map (\<lambda>sg. light_paints ((lx sg / w) * width c) ((ly sg / h) * height c) sg tm
              (globalAlpha (st c)) []) ls) \<and>
         handleCanvasClick (Some \<lparr>left = l, top = t, rect_width = sw, rect_height = sh\<rparr>) True
            w h (l + cx) (t + cy) = Some ((cx / sw) * w, (cy / sh) * h) \<and>
         handleCanvasClick (Some \<lparr>left = l, top = t, rect_width = sw, rect_height = sh\<rparr>) True
            w h (l + scaleX x w sw) (t + scaleY y h sh) = Some (x, y) \<and>
         scaleX ((cx / sw) * w) w sw = cx \<and> scaleY ((cy / sh) * h) h sh = cy \<and>
         scaleX x w (width c) / width c * sw = scaleX x w sw \<and>
         scaleY y h (height c) / height c * sh = scaleY y h sh \<and>
         scaleX 25 50 sw = 0.5 * sw \<and>
         handleCanvasClick (Some \<lparr>left = l, top = t, rect_width = sw, rect_height = sh\<rparr>) True
            100 100 (l + sw / 2) (t + sh / 2) = Some (50, 50) \<and>
         SimulationCanvas
           \<lparr>vehicles = Val vs, traffic_lights = Val ls,
            config = Val \<lparr>grid_width = Some w, grid_height = Some h\<rparr>\<rparr> tm (Some c) =
         Inr (Some (draw tm vs ls w h c))"
proof -
  have "v \<in> set vs \<Longrightarrow>
      FillPath [Arc ((vx v / w) * width c) ((vy v / h) * height c) (marker_size (speed v))
         0 (pi * 2)] (color v) (marker_opacity (waiting_time v))
      \<in> set (painted (draw tm vs ls w h c))"
    using vehicle_in_draw [of v vs w c h tm ls]
    by (simp add: vehicle_paints_def scaleX_def scaleY_def)
  moreover have "sg \<in> set ls \<Longrightarrow>
      (let lw = (if direction sg = ''horizontal'' then 20 else 8);
           lh = (if direction sg = ''horizontal'' then 8 else 20)
       in StrokeRect ((lx sg / w) * width c - lw / 2) ((ly sg / h) * height c - lh / 2)
            lw lh ''#333'' 2 [] (globalAlpha (st c)))
      \<in> set (painted (draw tm vs ls w h c))"
    using light_in_draw [of sg ls w c h tm vs]
    by (simp add: light_paints_def scaleX_def scaleY_def Let_def)
  moreover have "painted (draw tm vs ls w h c) =
           painted (draw_background c) @
           concat (map (\<lambda>v. vehicle_paints ((vx v / w) * width c) ((vy v / h) * height c)
              (marker_size (speed v)) (marker_opacity (waiting_time v)) (color v) (speed v) []
              (textBaseline (st c))) vs) @
           concat (map (\<lambda>sg. light_paints ((lx sg / w) * width c) ((ly sg / h) * height c) sg tm
              (globalAlpha (st c)) []) ls)"
    by (simp add: painted_draw scaleX_def scaleY_def)
  moreover have "handleCanvasClick (Some \<lparr>left = l, top = t, rect_width = sw, rect_height = sh\<rparr>)
      True w h (l + cx) (t + cy) = Some ((cx / sw) * w, (cy / sh) * h)" for cx cy w h
    by (simp add: handleCanvasClick_def)
  moreover have "scaleX x w sw / sw * w = x" "scaleY y h sh / sh * h = y"
    "scaleX ((cx / sw) * w) w sw = cx" "scaleY ((cy / sh) * h) h sh = cy"
    "scaleX x w (width c) / width c * sw = scaleX x w sw"
    "scaleY y h (height c) / height c * sh = scaleY y h sh"
    using assms by (simp_all add: scaleX_def scaleY_def)
  moreover have "scaleX 25 50 sw = 0.5 * sw" "sw / 2 / sw * 100 = 50" "sh / 2 / sh * 100 = 50"
    using assms by (simp_all add: scaleX_def)
  ultimately show ?thesis using assms by (simp add: SimulationCanvas_draw)
qed

theorem grid_and_surface_positions_witness:
  "(0::real) < 50 \<and> (0::real) < 50 \<and> (0::real) < 800 \<and> (0::real) < 600 \<and>
   0 < width new_canvas \<and> 0 < height new_canvas \<and>
   FillPath [Arc 400 120 4 0 (pi * 2)] ''#3498db'' 1
     \<in> set (painted (draw 0 [\<lparr>vx = 25, vy = 10, color = ''#3498db'', speed = 2, waiting_time = 0\<rparr>]
          [\<lparr>lx = 25, ly = 20, state = ''RED'', direction = ''horizontal'', queue_length = 3\<rparr>]
          50 50 new_canvas)) \<and>
   StrokeRect 390 236 20 8 ''#333'' 2 [] 1
     \<in> set (painted (draw 0 [\<lparr>vx = 25, vy = 10, color = ''#3498db'', speed = 2, waiting_time = 0\<rparr>]
          [\<lparr>lx = 25, ly = 20, state = ''RED'', direction = ''horizontal'', queue_length = 3\<rparr>]
          50 50 new_canvas)) \<and>
   handleCanvasClick (Some \<lparr>left = 8, top = 16, rect_width = 800, rect_height = 600\<rparr>) True
     50 50 (8 + 400) (16 + 120) = Some (25, 10)"
proof -
  note t = grid_and_surface_positions [where w = 50 and h = 50 and sw = 800 and sh = 600
      and v = "\<lparr>vx = 25, vy = 10, color = ''#3498db'', speed = 2, waiting_time = 0\<rparr>"
      and vs = "[\<lparr>vx = 25, vy = 10, color = ''#3498db'', speed = 2, waiting_time = 0\<rparr>]"
      and sg = "\<lparr>lx = 25, ly = 20, state = ''RED'', direction = ''horizontal'', queue_length = 3\<rparr>"
      and ls = "[\<lparr>lx = 25, ly = 20, state = ''RED'', direction = ''horizontal'', queue_length = 3\<rparr>]"
      and c = new_canvas and tm = 0 and l = 8 and t = 16 and cx = 400
      and cy = 120 and x = 25 and y = 10]
  have p: "(0::real) < 50" "(0::real) < 800" "(0::real) < 600" "0 < width new_canvas"
    "0 < height new_canvas"
    by (simp_all add: new_canvas_def)
  note u = t [OF p(1) p(1) p(2) p(3) p(4) p(5)]
  from u [THEN conjunct1]
  have 1: "FillPath [Arc 400 120 4 0 (pi * 2)] ''#3498db'' 1
     \<in> set (painted (draw 0 [\<lparr>vx = 25, vy = 10, color = ''#3498db'', speed = 2, waiting_time = 0\<rparr>]
          [\<lparr>lx = 25, ly = 20, state = ''RED'', direction = ''horizontal'', queue_length = 3\<rparr>]
          50 50 new_canvas))"
    by (simp add: new_canvas_def marker_size_def marker_opacity_def)
  from u [THEN conjunct2, THEN conjunct1]
  have 2: "StrokeRect 390 236 20 8 ''#333'' 2 [] 1
     \<in> set (painted (draw 0 [\<lparr>vx = 25, vy = 10, color = ''#3498db'', speed = 2, waiting_time = 0\<rparr>]
          [\<lparr>lx = 25, ly = 20, state = ''RED'', direction = ''horizontal'', queue_length = 3\<rparr>]
          50 50 new_canvas))"
    by (simp add: new_canvas_def initial_ctx_state_def)
  from u [THEN conjunct2, THEN conjunct2, THEN conjunct2, THEN conjunct1]
  have 3: "handleCanvasClick (Some \<lparr>left = 8, top = 16, rect_width = 800, rect_height = 600\<rparr>) True
     50 50 (8 + 400) (16 + 120) = Some (25, 10)"
    by simp
  show ?thesis
    by (intro conjI p 1 2 3)
qed

subsection \<open>Marker radius\<close>

text \<open>
  C6.  The disc drawn for a vehicle has radius \<open>max 3 (min 8 (speed * 2))\<close>, that is
  twice the speed clamped to the range from 3 to 8; the radius never decreases when the
  speed grows; speed 0 gives radius 3, speed 2 gives radius 4 and speed 10 gives radius 8;
  and the component, redrawing a snapshot, puts the disc of each of its vehicles, with
  this radius, on the bitmap.
\<close>

theorem marker_radius_clamped:
  "painted (draw_vehicle gw gh v c) =
     painted c @
     vehicle_paints (scaleX (vx v) gw (width c)) (scaleY (vy v) gh (height c))
       (max 3 (min 8 (speed v * 2))) (marker_opacity (waiting_time v)) (color v) (speed v)
       (lineDash (st c)) (textBaseline (st c)) \<and>
   marker_size s = (if s * 2 < 3 then 3 else if 8 < s * 2 then 8 else s * 2) \<and>
   (s \<le> s' \<longrightarrow> marker_size s \<le> marker_size s') \<and>
   marker_size 0 = 3 \<and> marker_size 2 = 4 \<and> marker_size 10 = 8 \<and>
   (v \<in> set vs \<longrightarrow>
      set (vehicle_paints (scaleX (vx v) gw (width c)) (scaleY (vy v) gh (height c))
             (max 3 (min 8 (speed v * 2))) (marker_opacity (waiting_time v)) (color v) (speed v)
             [] (textBaseline (st c)))
      \<subseteq> set (painted (draw tm vs ls gw gh c))) \<and>
   SimulationCanvas
     \<lparr>vehicles = Val vs, traffic_lights = Val ls,
      config = Val \<lparr>grid_width = Some gw, grid_height = Some gh\<rparr>\<rparr> tm (Some c) =
   Inr (Some (draw tm vs ls gw gh c))"
proof -
  have "v \<in> set vs \<Longrightarrow>
      set (vehicle_paints (scaleX (vx v) gw (width c)) (scaleY (vy v) gh (height c))
             (max 3 (min 8 (speed v * 2))) (marker_opacity (waiting_time v)) (color v) (speed v)
             [] (textBaseline (st c)))
      \<subseteq> set (painted (draw tm vs ls gw gh c))"
    using vehicle_in_draw [of v vs gw c gh tm ls] by (simp add: marker_size_def)
  moreover have "painted (draw_vehicle gw gh v c) =
     painted c @
     vehicle_paints (scaleX (vx v) gw (width c)) (scaleY (vy v) gh (height c))
       (max 3 (min 8 (speed v * 2))) (marker_opacity (waiting_time v)) (color v) (speed v)
       (lineDash (st c)) (textBaseline (st c))"
    by (simp add: draw_vehicle_eq) (simp add: marker_size_def)
  moreover have "marker_size s = (if s * 2 < 3 then 3 else if 8 < s * 2 then 8 else s * 2)"
    "s \<le> s' \<Longrightarrow> marker_size s \<le> marker_size s'"
    "marker_size 0 = 3" "marker_size 2 = 4" "marker_size 10 = 8"
    by (simp_all add: marker_size_def)
  moreover note SimulationCanvas_draw [of vs ls gw gh tm c]
  ultimately show ?thesis by blast
qed

theorem marker_radius_clamped_witness:
  "(1::real) \<le> 3 \<and> marker_size 1 \<le> marker_size 3 \<and> marker_size 1 = 3 \<and> marker_size 3 = 6 \<and>
   painted (draw_vehicle 50 50
      \<lparr>vx = 25, vy = 10, color = ''#3498db'', speed = 3, waiting_time = 0\<rparr> new_canvas)
   = [FillPath [Arc 400 120 6 0 (pi * 2)] ''#3498db'' 1,
      StrokePath [Arc 400 120 6 0 (pi * 2)] ''#fff'' 1 [] 1,
      FillText (ToFixed1 3) 400 136 ''#fff'' ''8px Arial'' ''center'' ''alphabetic'' 1] \<and>
   \<lparr>vx = 25, vy = 10, color = ''#3498db'', speed = 3, waiting_time = 0\<rparr>
     \<in> set [\<lparr>vx = 25, vy = 10, color = ''#3498db'', speed = 3, waiting_time = 0\<rparr>] \<and>
   FillPath [Arc 400 120 6 0 (pi * 2)] ''#3498db'' 1
     \<in> set (painted (draw 0 [\<lparr>vx = 25, vy = 10, color = ''#3498db'', speed = 3, waiting_time = 0\<rparr>]
          [] 50 50 new_canvas))"
  using marker_radius_clamped [of 50 50
      "\<lparr>vx = 25, vy = 10, color = ''#3498db'', speed = 3, waiting_time = 0\<rparr>" new_canvas 1 3
      "[\<lparr>vx = 25, vy = 10, color = ''#3498db'', speed = 3, waiting_time = 0\<rparr>]" 0 "[]"]
  by (simp add: vehicle_paints_def new_canvas_def initial_ctx_state_def scaleX_def scaleY_def
      marker_opacity_def marker_size_def)

subsection \<open>Marker opacity\<close>

text \<open>
  C7.  Of two vehicles that differ in the waiting time only, the one whose waiting time
  is positive is drawn with opacity 0.7 and the one whose waiting time is zero with
  opacity 1; position, radius, colour and label are the same.  This holds for the marker
  as the callback of \<open>vehicles.forEach\<close> draws it and for the bitmap the component
  leaves after the redraw of a snapshot: every vehicle of the snapshot is on it with opacity 0.7 when it waits and 1
  when its waiting time is zero, and two snapshots that differ in the waiting time of one
  vehicle only give bitmaps that differ in the opacity of that vehicle's marker only.
\<close>

theorem waiting_vehicle_opacity:
  "(0 < wt \<longrightarrow>
      painted (draw_vehicle gw gh (v\<lparr>waiting_time := wt\<rparr>) c) =
        painted c @
        vehicle_paints (scaleX (vx v) gw (width c)) (scaleY (vy v) gh (height c))
          (marker_size (speed v)) 0.7 (color v) (speed v) (lineDash (st c))
          (textBaseline (st c))) \<and>
   painted (draw_vehicle gw gh (v\<lparr>waiting_time := 0\<rparr>) c) =
     painted c @
     vehicle_paints (scaleX (vx v) gw (width c)) (scaleY (vy v) gh (height c))
       (marker_size (speed v)) 1 (color v) (speed v) (lineDash (st c))
       (textBaseline (st c)) \<and>
   (u \<in> set vs \<and> 0 < waiting_time u \<longrightarrow>
      set (vehicle_paints (scaleX (vx u) gw (width c)) (scaleY (vy u) gh (height c))
             (marker_size (speed u)) 0.7 (color u) (speed u) [] (textBaseline (st c)))
      \<subseteq> set (painted (draw tm vs ls gw gh c))) \<and>
   (u \<in> set vs \<and> waiting_time u = 0 \<longrightarrow>
      set (vehicle_paints (scaleX (vx u) gw (width c)) (scaleY (vy u) gh (height c))
             (marker_size (speed u)) 1 (color u) (speed u) [] (textBaseline (st c)))
      \<subseteq> set (painted (draw tm vs ls gw gh c))) \<and>
   (\<exists>before after.
      (0 < wt \<longrightarrow>
         painted (draw tm (vs1 @ v\<lparr>waiting_time := wt\<rparr> # vs2) ls gw gh c) =
           before @
           vehicle_paints (scaleX (vx v) gw (width c)) (scaleY (vy v) gh (height c))
             (marker_size (speed v)) 0.7 (color v) (speed v) [] (textBaseline (st c)) @
           after) \<and>
      painted (draw tm (vs1 @ v\<lparr>waiting_time := 0\<rparr> # vs2) ls gw gh c) =
        before @
        vehicle_paints (scaleX (vx v) gw (width c)) (scaleY (vy v) gh (height c))
          (marker_size (speed v)) 1 (color v) (speed v) [] (textBaseline (st c)) @
        after) \<and>
   SimulationCanvas
     \<lparr>vehicles = Val vs, traffic_lights = Val ls,
      config = Val \<lparr>grid_width = Some gw, grid_height = Some gh\<rparr>\<rparr> tm (Some c) =
   Inr (Some (draw tm vs ls gw gh c))"
proof -
  have A: "0 < wt \<Longrightarrow>
      painted (draw_vehicle gw gh (v\<lparr>waiting_time := wt\<rparr>) c) =
        painted c @
        vehicle_paints (scaleX (vx v) gw (width c)) (scaleY (vy v) gh (height c))
          (marker_size (speed v)) 0.7 (color v) (speed v) (lineDash (st c))
          (textBaseline (st c))"
    "painted (draw_vehicle gw gh (v\<lparr>waiting_time := 0\<rparr>) c) =
     painted c @
     vehicle_paints (scaleX (vx v) gw (width c)) (scaleY (vy v) gh (height c))
       (marker_size (speed v)) 1 (color v) (speed v) (lineDash (st c))
       (textBaseline (st c))"
    by (simp_all add: draw_vehicle_eq marker_opacity_def)
  have B: "set (vehicle_paints (scaleX (vx u) gw (width c)) (scaleY (vy u) gh (height c))
             (marker_size (speed u)) 0.7 (color u) (speed u) [] (textBaseline (st c)))
      \<subseteq> set (painted (draw tm vs ls gw gh c))" if "u \<in> set vs" "0 < waiting_time u"
    using vehicle_in_draw [OF that(1), of gw c gh tm ls] that(2) by (simp add: marker_opacity_def)
  have C: "set (vehicle_paints (scaleX (vx u) gw (width c)) (scaleY (vy u) gh (height c))
             (marker_size (speed u)) 1 (color u) (speed u) [] (textBaseline (st c)))
      \<subseteq> set (painted (draw tm vs ls gw gh c))" if "u \<in> set vs" "waiting_time u = 0"
    using vehicle_in_draw [OF that(1), of gw c gh tm ls] that(2) by (simp add: marker_opacity_def)
  let ?VP = "\<lambda>v. vehicle_paints (scaleX (vx v) gw (width c)) (scaleY (vy v) gh (height c))
        (marker_size (speed v)) (marker_opacity (waiting_time v)) (color v) (speed v) []
        (textBaseline (st c))"
  let ?before = "painted (draw_background c) @ concat (map ?VP vs1)"
  let ?after = "concat (map ?VP vs2) @
     concat (map (\<lambda>l. light_paints (scaleX (lx l) gw (width c)) (scaleY (ly l) gh (height c)) l tm
        (globalAlpha (st c)) []) ls)"
  have D: "(0 < wt \<longrightarrow>
         painted (draw tm (vs1 @ v\<lparr>waiting_time := wt\<rparr> # vs2) ls gw gh c) =
           ?before @
           vehicle_paints (scaleX (vx v) gw (width c)) (scaleY (vy v) gh (height c))
             (marker_size (speed v)) 0.7 (color v) (speed v) [] (textBaseline (st c)) @
           ?after) \<and>
      painted (draw tm (vs1 @ v\<lparr>waiting_time := 0\<rparr> # vs2) ls gw gh c) =
        ?before @
        vehicle_paints (scaleX (vx v) gw (width c)) (scaleY (vy v) gh (height c))
          (marker_size (speed v)) 1 (color v) (speed v) [] (textBaseline (st c)) @
        ?after"
    by (simp add: painted_draw marker_opacity_def)
  have E: "\<exists>before after.
      (0 < wt \<longrightarrow>
         painted (draw tm (vs1 @ v\<lparr>waiting_time := wt\<rparr> # vs2) ls gw gh c) =
           before @
           vehicle_paints (scaleX (vx v) gw (width c)) (scaleY (vy v) gh (height c))
             (marker_size (speed v)) 0.7 (color v) (speed v) [] (textBaseline (st c)) @
           after) \<and>
      painted (draw tm (vs1 @ v\<lparr>waiting_time := 0\<rparr> # vs2) ls gw gh c) =
        before @
        vehicle_paints (scaleX (vx v) gw (width c)) (scaleY (vy v) gh (height c))
          (marker_size (speed v)) 1 (color v) (speed v) [] (textBaseline (st c)) @
        after"
    using D by blast
  show ?thesis using A B C E SimulationCanvas_draw [of vs ls gw gh tm c] by blast
qed

theorem waiting_vehicle_opacity_witness:
  "(0::real) < 4 \<and>
   painted (draw_vehicle 50 50
      \<lparr>vx = 25, vy = 10, color = ''#3498db'', speed = 0, waiting_time = 4\<rparr> new_canvas)
   = [FillPath [Arc 400 120 3 0 (pi * 2)] ''#3498db'' 0.7,
      StrokePath [Arc 400 120 3 0 (pi * 2)] ''#fff'' 1 [] 0.7] \<and>
   painted (draw_vehicle 50 50
      \<lparr>vx = 25, vy = 10, color = ''#3498db'', speed = 0, waiting_time = 0\<rparr> new_canvas)
   = [FillPath [Arc 400 120 3 0 (pi * 2)] ''#3498db'' 1,
      StrokePath [Arc 400 120 3 0 (pi * 2)] ''#fff'' 1 [] 1] \<and>
   0 < waiting_time \<lparr>vx = 25, vy = 10, color = ''#3498db'', speed = 0, waiting_time = 4\<rparr> \<and>
   FillPath [Arc 400 120 3 0 (pi * 2)] ''#3498db'' 0.7
     \<in> set (painted (draw 0
          [\<lparr>vx = 25, vy = 10, color = ''#3498db'', speed = 0, waiting_time = 4\<rparr>] [] 50 50
          new_canvas)) \<and>
   waiting_time \<lparr>vx = 25, vy = 10, color = ''#3498db'', speed = 0, waiting_time = 0\<rparr> = 0 \<and>
   FillPath [Arc 400 120 3 0 (pi * 2)] ''#3498db'' 1
     \<in> set (painted (draw 0
          [\<lparr>vx = 25, vy = 10, color = ''#3498db'', speed = 0, waiting_time = 0\<rparr>] [] 50 50
          new_canvas))"
proof -
  note t = waiting_vehicle_opacity [where wt = 4 and gw = 50 and gh = 50 and c = new_canvas
      and v = "\<lparr>vx = 25, vy = 10, color = ''#3498db'', speed = 0, waiting_time = 9\<rparr>"
      and tm = 0 and ls = "[]"]
  from t [THEN conjunct1]
  have 1: "painted (draw_vehicle 50 50
      \<lparr>vx = 25, vy = 10, color = ''#3498db'', speed = 0, waiting_time = 4\<rparr> new_canvas)
   = [FillPath [Arc 400 120 3 0 (pi * 2)] ''#3498db'' 0.7,
      StrokePath [Arc 400 120 3 0 (pi * 2)] ''#fff'' 1 [] 0.7]"
    by (simp add: vehicle_paints_def new_canvas_def initial_ctx_state_def scaleX_def scaleY_def
        marker_size_def)
  from t [THEN conjunct2, THEN conjunct1]
  have 2: "painted (draw_vehicle 50 50
      \<lparr>vx = 25, vy = 10, color = ''#3498db'', speed = 0, waiting_time = 0\<rparr> new_canvas)
   = [FillPath [Arc 400 120 3 0 (pi * 2)] ''#3498db'' 1,
      StrokePath [Arc 400 120 3 0 (pi * 2)] ''#fff'' 1 [] 1]"
    by (simp add: vehicle_paints_def new_canvas_def initial_ctx_state_def scaleX_def scaleY_def
        marker_size_def)
  note t4 = waiting_vehicle_opacity [where gw = 50 and gh = 50 and c = new_canvas
      and u = "\<lparr>vx = 25, vy = 10, color = ''#3498db'', speed = 0, waiting_time = 4\<rparr>"
      and vs = "[\<lparr>vx = 25, vy = 10, color = ''#3498db'', speed = 0, waiting_time = 4\<rparr>]"
      and tm = 0 and ls = "[]"]
  from t4 [THEN conjunct2, THEN conjunct2, THEN conjunct1]
  have 3: "FillPath [Arc 400 120 3 0 (pi * 2)] ''#3498db'' 0.7
     \<in> set (painted (draw 0
          [\<lparr>vx = 25, vy = 10, color = ''#3498db'', speed = 0, waiting_time = 4\<rparr>] [] 50 50
          new_canvas))"
    by (simp add: vehicle_paints_def new_canvas_def scaleX_def scaleY_def marker_size_def)
  note t0 = waiting_vehicle_opacity [where gw = 50 and gh = 50 and c = new_canvas
      and u = "\<lparr>vx = 25, vy = 10, color = ''#3498db'', speed = 0, waiting_time = 0\<rparr>"
      and vs = "[\<lparr>vx = 25, vy = 10, color = ''#3498db'', speed = 0, waiting_time = 0\<rparr>]"
      and tm = 0 and ls = "[]"]
  from t0 [THEN conjunct2, THEN conjunct2, THEN conjunct2, THEN conjunct1]
  have 4: "FillPath [Arc 400 120 3 0 (pi * 2)] ''#3498db'' 1
     \<in> set (painted (draw 0
          [\<lparr>vx = 25, vy = 10, color = ''#3498db'', speed = 0, waiting_time = 0\<rparr>] [] 50 50
          new_canvas))"
    by (simp add: vehicle_paints_def new_canvas_def scaleX_def scaleY_def marker_size_def)
  show ?thesis
    by (intro conjI 1 2 3 4) simp_all
qed

subsection \<open>Missing fields\<close>

text \<open>
  C10.  A snapshot in which each of \<open>vehicles\<close>, \<open>traffic_lights\<close> and \<open>config\<close> is
  either absent or holds a value of its type (the empty object included) is rendered without
  an exception: an absent vehicle list and an absent signal list are drawn as empty lists,
  an absent \<open>config\<close>, and a \<open>config\<close> without a dimension, give the grid 50 by 50, so
  that the divisor of a scale factor is then 50; for the empty object the redraw is the
  background alone.
\<close>

theorem renderer_defaults:
  assumes "vehicles s \<noteq> Null" and "traffic_lights s \<noteq> Null" and "config s \<noteq> Null"
  shows "SimulationCanvas s tm (Some c) =
           Inr (Some (draw tm
             (case vehicles s of Val vs \<Rightarrow> vs | _ \<Rightarrow> [])
             (case traffic_lights s of Val ls \<Rightarrow> ls | _ \<Rightarrow> [])
             (case config s of
                Val g \<Rightarrow> (case grid_width g of Some w \<Rightarrow> w | None \<Rightarrow> 50)
              | _ \<Rightarrow> 50)
             (case config s of
                Val g \<Rightarrow> (case grid_height g of Some h \<Rightarrow> h | None \<Rightarrow> 50)
              | _ \<Rightarrow> 50)
             c)) \<and>
         destructure_config Undefined = Inr (50, 50) \<and>
         destructure_config (Val \<lparr>grid_width = None, grid_height = None\<rparr>) = Inr (50, 50) \<and>
         SimulationCanvas \<lparr>vehicles = Undefined, traffic_lights = Undefined, config = Undefined\<rparr>
           tm (Some c) = Inr (Some (draw_background c))"
  using assms
  by (simp add: SimulationCanvas_def destructure_config_def dflt_def draw_def
      split: js_field.splits option.splits)

theorem renderer_defaults_witness:
  "vehicles \<lparr>vehicles = Undefined, traffic_lights = Val [], config = Undefined\<rparr> \<noteq> Null \<and>
   traffic_lights \<lparr>vehicles = Undefined, traffic_lights = Val [], config = Undefined\<rparr> \<noteq> Null \<and>
   config \<lparr>vehicles = Undefined, traffic_lights = Val [], config = Undefined\<rparr> \<noteq> Null \<and>
   SimulationCanvas \<lparr>vehicles = Undefined, traffic_lights = Val [], config = Undefined\<rparr> 0
     (Some new_canvas) = Inr (Some (draw 0 [] [] 50 50 new_canvas))"
  using renderer_defaults
    [of "\<lparr>vehicles = Undefined, traffic_lights = Val [], config = Undefined\<rparr>" 0 new_canvas]
  by simp

subsection \<open>Last snapshot wins\<close>

lemma agree_draw_vehicle:
  "agree c1 c2 \<Longrightarrow> agree (draw_vehicle gw gh v c1) (draw_vehicle gw gh v c2)"
  by (simp add: agree_def draw_vehicle_eq)

lemma agree_fold_draw_vehicle:
  "agree c1 c2 \<Longrightarrow> agree (fold (draw_vehicle gw gh) vs c1) (fold (draw_vehicle gw gh) vs c2)"
  by (induction vs arbitrary: c1 c2) (simp_all add: agree_draw_vehicle)

lemma agree_draw_light:
  "agree c1 c2 \<Longrightarrow> agree (draw_light tm gw gh l c1) (draw_light tm gw gh l c2)"
  by (simp add: agree_def draw_light_def Let_def ctx_defs)

lemma agree_fold_draw_light:
  "agree c1 c2 \<Longrightarrow>
   agree (fold (draw_light tm gw gh) ls c1) (fold (draw_light tm gw gh) ls c2)"
  by (induction ls arbitrary: c1 c2) (simp_all add: agree_draw_light)

lemma agree_draw_background:
  "width c1 = width c2 \<Longrightarrow> height c1 = height c2 \<Longrightarrow>
   globalAlpha (st c1) = globalAlpha (st c2) \<Longrightarrow> lineDash (st c1) = lineDash (st c2) \<Longrightarrow>
   textBaseline (st c1) = textBaseline (st c2) \<Longrightarrow>
   agree (draw_background c1) (draw_background c2)"
  by (simp add: agree_def draw_background_def Let_def ctx_defs)

lemma upto_draw_vehicle:
  "agree_upto_baseline c1 c2 \<Longrightarrow>
   agree_upto_baseline (draw_vehicle gw gh v c1) (draw_vehicle gw gh v c2)"
  by (simp add: agree_upto_baseline_def draw_vehicle_eq vehicle_paints_def forget_baseline_def)

lemma upto_fold_draw_vehicle:
  "agree_upto_baseline c1 c2 \<Longrightarrow>
   agree_upto_baseline (fold (draw_vehicle gw gh) vs c1) (fold (draw_vehicle gw gh) vs c2)"
  by (induction vs arbitrary: c1 c2) (simp_all add: upto_draw_vehicle)

lemma upto_draw_light:
  "agree_upto_baseline c1 c2 \<Longrightarrow>
   agree_upto_baseline (draw_light tm gw gh l c1) (draw_light tm gw gh l c2)"
  by (simp add: agree_upto_baseline_def draw_light_def Let_def ctx_defs forget_baseline_def)

lemma upto_fold_draw_light:
  "agree_upto_baseline c1 c2 \<Longrightarrow>
   agree_upto_baseline (fold (draw_light tm gw gh) ls c1) (fold (draw_light tm gw gh) ls c2)"
  by (induction ls arbitrary: c1 c2) (simp_all add: upto_draw_light)

lemma upto_draw_background:
  "width c1 = width c2 \<Longrightarrow> height c1 = height c2 \<Longrightarrow>
   globalAlpha (st c1) = globalAlpha (st c2) \<Longrightarrow> lineDash (st c1) = lineDash (st c2) \<Longrightarrow>
   agree_upto_baseline (draw_background c1) (draw_background c2)"
  by (simp add: agree_upto_baseline_def draw_background_def Let_def ctx_defs forget_baseline_def)

lemma draw_agree:
  assumes "width c1 = width c2" and "height c1 = height c2"
    and "globalAlpha (st c1) = globalAlpha (st c2)" and "lineDash (st c1) = lineDash (st c2)"
    and "textBaseline (st c1) = textBaseline (st c2)"
  shows "painted (draw tm vs ls gw gh c1) = painted (draw tm vs ls gw gh c2)"
proof -
  have "agree (draw_background c1) (draw_background c2)"
    using assms by (rule agree_draw_background)
  then have "agree (fold (draw_vehicle gw gh) vs (draw_background c1))
     (fold (draw_vehicle gw gh) vs (draw_background c2))"
    by (rule agree_fold_draw_vehicle)
  then have "agree (draw tm vs ls gw gh c1) (draw tm vs ls gw gh c2)"
    unfolding draw_def by (rule agree_fold_draw_light)
  then show ?thesis by (simp add: agree_def)
qed

lemma draw_agree_upto:
  assumes "width c1 = width c2" and "height c1 = height c2"
    and "globalAlpha (st c1) = globalAlpha (st c2)" and "lineDash (st c1) = lineDash (st c2)"
  shows "map forget_baseline (painted (draw tm vs ls gw gh c1)) =
         map forget_baseline (painted (draw tm vs ls gw gh c2))"
proof -
  have "agree_upto_baseline (draw_background c1) (draw_background c2)"
    using assms by (rule upto_draw_background)
  then have "agree_upto_baseline (fold (draw_vehicle gw gh) vs (draw_background c1))
     (fold (draw_vehicle gw gh) vs (draw_background c2))"
    by (rule upto_fold_draw_vehicle)
  then have "agree_upto_baseline (draw tm vs ls gw gh c1) (draw tm vs ls gw gh c2)"
    unfolding draw_def by (rule upto_fold_draw_light)
  then show ?thesis by (simp add: agree_upto_baseline_def)
qed

lemma redraw_cases:
  "redraw sn c = Inr d \<Longrightarrow>
   \<exists>vs ls gw gh. d = draw (snd sn) vs ls gw gh c \<and>
     destructure_config (config (fst sn)) = Inr (gw, gh) \<and>
     dflt [] (vehicles (fst sn)) = Val vs \<and> dflt [] (traffic_lights (fst sn)) = Val ls"
  by (auto simp: redraw_def SimulationCanvas_def split: sum.splits prod.splits js_field.splits)

lemma redraw_keeps:
  "redraw sn c = Inr d \<Longrightarrow>
   width d = width c \<and> height d = height c \<and> globalAlpha (st d) = globalAlpha (st c) \<and>
   lineDash (st d) = []"
  by (auto dest!: redraw_cases simp: draw_keeps)

lemma redraws_keeps:
  "redraws h c = Inr d \<Longrightarrow> lineDash (st c) = [] \<Longrightarrow>
   width d = width c \<and> height d = height c \<and> globalAlpha (st d) = globalAlpha (st c) \<and>
   lineDash (st d) = []"
proof (induction h arbitrary: c)
  case Nil
  then show ?case by simp
next
  case (Cons sn h)
  then obtain c' where 1: "redraw sn c = Inr c'" and 2: "redraws h c' = Inr d"
    by (auto split: sum.splits)
  from Cons.IH [OF 2] redraw_keeps [OF 1] show ?case by simp
qed

lemma redraws_snoc:
  "redraws (h @ [sn]) c = (case redraws h c of Inl e \<Rightarrow> Inl e | Inr c' \<Rightarrow> redraw sn c')"
  by (induction h arbitrary: c) (auto split: sum.splits)

lemma redraw_after_histories:
  assumes "redraws h1 new_canvas = Inr c1" and "redraws h2 new_canvas = Inr c2"
    and "redraw (S2, tm) c1 = Inr d1" and "redraw (S2, tm) c2 = Inr d2"
  shows "map forget_baseline (painted d1) = map forget_baseline (painted d2) \<and>
         (textBaseline (st c1) = textBaseline (st c2) \<longrightarrow> painted d1 = painted d2)"
proof -
  have "lineDash (st new_canvas) = []"
    by (simp add: new_canvas_def initial_ctx_state_def)
  from redraws_keeps [OF assms(1) this] redraws_keeps [OF assms(2) this]
  have eq: "width c1 = width c2" "height c1 = height c2"
    "globalAlpha (st c1) = globalAlpha (st c2)" "lineDash (st c1) = lineDash (st c2)"
    by simp_all
  from redraw_cases [OF assms(3)] redraw_cases [OF assms(4)]
  obtain vs ls gw gh where d: "d1 = draw tm vs ls gw gh c1" "d2 = draw tm vs ls gw gh c2"
    by auto
  show ?thesis
    using draw_agree [OF eq] draw_agree_upto [OF eq] by (simp add: d)
qed

lemma not_isl_snoc:
  assumes "\<not> isl (surface_after (h @ [sn]))"
  shows "\<exists>c d. redraws h new_canvas = Inr c \<and> redraw sn c = Inr d"
proof -
  obtain c where c: "redraws h new_canvas = Inr c"
    using assms by (cases "redraws h new_canvas") (auto simp: surface_after_def redraws_snoc)
  obtain d where "redraw sn c = Inr d"
    using assms c by (cases "redraw sn c") (auto simp: surface_after_def redraws_snoc)
  with c show ?thesis by blast
qed

lemma sin_1_neq_0: "sin (1::real) \<noteq> 0"
  using sin_gt_zero_02 [of "1::real"] by simp

text \<open>
  C4, as amended.  Take two histories that end with the same snapshot, redrawn at the same
  clock reading, and that render without an exception.  Then the two surfaces hold the
  same paint operations up to the text baseline of the labels, so nothing drawn for an
  earlier snapshot remains; and they are equal outright when the two histories before the
  last snapshot left the same text baseline in the drawing context.
\<close>

theorem last_snapshot_wins:
  assumes "\<not> isl (surface_after (h1 @ [(S2, tm)]))" and "\<not> isl (surface_after (h2 @ [(S2, tm)]))"
  shows "map_sum id (map forget_baseline) (surface_after (h1 @ [(S2, tm)])) =
         map_sum id (map forget_baseline) (surface_after (h2 @ [(S2, tm)])) \<and>
         (baseline_after h1 = baseline_after h2 \<longrightarrow>
            surface_after (h1 @ [(S2, tm)]) = surface_after (h2 @ [(S2, tm)]))"
proof -
  from not_isl_snoc [OF assms(1)] obtain c1 d1 where 1: "redraws h1 new_canvas = Inr c1"
    and 2: "redraw (S2, tm) c1 = Inr d1"
    by blast
  from not_isl_snoc [OF assms(2)] obtain c2 d2 where 3: "redraws h2 new_canvas = Inr c2"
    and 4: "redraw (S2, tm) c2 = Inr d2"
    by blast
  show ?thesis
    using redraw_after_histories [OF 1 3 2 4]
    by (simp add: surface_after_def baseline_after_def redraws_snoc 1 2 3 4)
qed

theorem last_snapshot_wins_witness:
  "\<not> isl (surface_after ([(S_queue, 0)] @ [(S_car, 7)])) \<and>
   \<not> isl (surface_after ([] @ [(S_car, 7)])) \<and>
   map_sum id (map forget_baseline) (surface_after ([(S_queue, 0)] @ [(S_car, 7)])) =
   map_sum id (map forget_baseline) (surface_after ([] @ [(S_car, 7)])) \<and>
   \<not> isl (surface_after ([(S_yellow, 0)] @ [(S_car, 7)])) \<and>
   baseline_after [(S_yellow, 0)] = baseline_after [] \<and>
   surface_after ([(S_yellow, 0)] @ [(S_car, 7)]) = surface_after ([] @ [(S_car, 7)])"
proof -
  have a: "\<not> isl (surface_after ([(S_queue, 0)] @ [(S_car, 7)]))"
    by (simp add: render_defs S_queue_def S_car_def)
  have b: "\<not> isl (surface_after ([] @ [(S_car, 7)]))"
    by (simp add: render_defs S_car_def)
  have c: "\<not> isl (surface_after ([(S_yellow, 0)] @ [(S_car, 7)]))"
    by (simp add: render_defs S_yellow_def S_car_def)
  have d: "baseline_after [(S_yellow, 0)] = baseline_after []"
    by (simp add: render_defs S_yellow_def)
  show ?thesis
    using last_snapshot_wins [OF a b] last_snapshot_wins [OF c b] a b c d by simp
qed

text \<open>
  The claim as stated fails twice.  A yellow signal is overlaid with an opacity that
  depends on the clock, so the same snapshot drawn at two instants gives two surfaces.
  And the badge of a signal with a queue leaves the text baseline \<open>middle\<close> in the drawing
  context, which the speed label of a vehicle in a later redraw is then drawn with.
\<close>

theorem last_snapshot_wins_counterexample:
  "surface_after [(S_yellow, 0)] \<noteq> surface_after [(S_yellow, 500)] \<and>
   surface_after [(S_queue, 0), (S_car, 0)] \<noteq> surface_after [(S_car, 0)] \<and>
   \<not> isl (surface_after [(S_yellow, 0)]) \<and> \<not> isl (surface_after [(S_car, 0)])"
  by (simp add: render_defs S_car_def S_queue_def S_yellow_def sin_1_neq_0)


section \<open>Connection manager: proofs\<close>

subsection \<open>Invariants\<close>

lemma wk_empty: "intervals s = [] \<Longrightarrow> wk s"
  by (simp add: wk_def)

lemma wk_cong:
  "intervals s' = intervals s \<Longrightarrow> stepIntervalRef s' = stepIntervalRef s \<Longrightarrow> wk s' = wk s"
  by (simp add: wk_def)

lemma wk_clear: "wk s \<Longrightarrow> stepIntervalRef s = Some t \<Longrightarrow> filter (\<lambda>e. fst e \<noteq> t) (intervals s) = []"
  by (auto simp: wk_def filter_empty_conv)

lemma wk_no_ref: "wk s \<Longrightarrow> stepIntervalRef s = None \<Longrightarrow> intervals s = []"
  by (cases "intervals s") (auto simp: wk_def)

lemma step_effect_cleanup_facts:
  "wk s \<Longrightarrow> intervals (step_effect_cleanup s) = []"
  "step_effect_deps (step_effect_cleanup s) = step_effect_deps s"
  "conn_effect_deps (step_effect_cleanup s) = conn_effect_deps s"
  "life (step_effect_cleanup s) = life s"
  "isRunning (step_effect_cleanup s) = isRunning s"
  "isConnected (step_effect_cleanup s) = isConnected s"
  "simId (step_effect_cleanup s) = simId s"
  "onMessage_id (step_effect_cleanup s) = onMessage_id s"
  by (auto simp: step_effect_cleanup_def clearInterval_def wk_clear wk_no_ref split: option.splits)

lemma ws_close_facts:
  "intervals (ws_close i s) = intervals s"
  "stepIntervalRef (ws_close i s) = stepIntervalRef s"
  "step_effect_deps (ws_close i s) = step_effect_deps s"
  "conn_effect_deps (ws_close i s) = conn_effect_deps s"
  "life (ws_close i s) = life s"
  "isRunning (ws_close i s) = isRunning s"
  "isConnected (ws_close i s) = isConnected s"
  "simId (ws_close i s) = simId s"
  "onMessage_id (ws_close i s) = onMessage_id s"
  by (simp_all add: ws_close_def)

lemma connect_facts:
  "intervals (connect c s) = intervals s"
  "stepIntervalRef (connect c s) = stepIntervalRef s"
  "step_effect_deps (connect c s) = step_effect_deps s"
  "conn_effect_deps (connect c s) = conn_effect_deps s"
  "life (connect c s) = life s"
  "isRunning (connect c s) = isRunning s"
  "isConnected (connect c s) = isConnected s"
  "simId (connect c s) = simId s"
  "onMessage_id (connect c s) = onMessage_id s"
  by (simp_all add: connect_def Let_def ws_close_facts split: option.splits)

lemma disconnect_facts:
  "wk s \<Longrightarrow> intervals (disconnect s) = []"
  "step_effect_deps (disconnect s) = step_effect_deps s"
  "conn_effect_deps (disconnect s) = conn_effect_deps s"
  "life (disconnect s) = life s"
  "isRunning (disconnect s) = isRunning s"
  "\<not> isConnected s \<Longrightarrow> \<not> isConnected (disconnect s)"
  "simId (disconnect s) = simId s"
  "onMessage_id (disconnect s) = onMessage_id s"
  by (auto simp: disconnect_def Let_def clearTimeout_def clearInterval_def ws_close_facts
      wk_clear wk_no_ref split: option.splits)

lemma clearTimeout_facts:
  "intervals (clearTimeout t s) = intervals s"
  "stepIntervalRef (clearTimeout t s) = stepIntervalRef s"
  "step_effect_deps (clearTimeout t s) = step_effect_deps s"
  "conn_effect_deps (clearTimeout t s) = conn_effect_deps s"
  "life (clearTimeout t s) = life s"
  "isRunning (clearTimeout t s) = isRunning s"
  "isConnected (clearTimeout t s) = isConnected s"
  "simId (clearTimeout t s) = simId s"
  "onMessage_id (clearTimeout t s) = onMessage_id s"
  by (simp_all add: clearTimeout_def)

lemma conn_effect_cleanup_facts:
  "wk s \<Longrightarrow> wk (conn_effect_cleanup c s)"
  "intervals s = [] \<Longrightarrow> intervals (conn_effect_cleanup c s) = []"
  "step_effect_deps (conn_effect_cleanup c s) = step_effect_deps s"
  "conn_effect_deps (conn_effect_cleanup c s) = conn_effect_deps s"
  "life (conn_effect_cleanup c s) = life s"
  "isRunning (conn_effect_cleanup c s) = isRunning s"
  "simId (conn_effect_cleanup c s) = simId s"
  "onMessage_id (conn_effect_cleanup c s) = onMessage_id s"
  by (auto simp: conn_effect_cleanup_def disconnect_facts clearTimeout_facts wk_empty
      wk_cong [of "clearTimeout t s" s for t] split: option.splits)

lemma step_effect_body_facts:
  "intervals s = [] \<Longrightarrow> wk (step_effect_body r c s)"
  "intervals s = [] \<Longrightarrow> intervals (step_effect_body r c s) \<noteq> [] \<Longrightarrow> r \<and> c"
  "step_effect_deps (step_effect_body r c s) = step_effect_deps s"
  "conn_effect_deps (step_effect_body r c s) = conn_effect_deps s"
  "life (step_effect_body r c s) = life s"
  "isRunning (step_effect_body r c s) = isRunning s"
  "isConnected (step_effect_body r c s) = isConnected s"
  "simId (step_effect_body r c s) = simId s"
  "onMessage_id (step_effect_body r c s) = onMessage_id s"
  by (auto simp: step_effect_body_def clearInterval_def wk_def split: option.splits if_splits)

lemma conn_effect_body_facts:
  "intervals (conn_effect_body c s) = intervals s"
  "stepIntervalRef (conn_effect_body c s) = stepIntervalRef s"
  "step_effect_deps (conn_effect_body c s) = step_effect_deps s"
  "conn_effect_deps (conn_effect_body c s) = conn_effect_deps s"
  "life (conn_effect_body c s) = life s"
  "isRunning (conn_effect_body c s) = isRunning s"
  "isConnected (conn_effect_body c s) = isConnected s"
  "simId (conn_effect_body c s) = simId s"
  "onMessage_id (conn_effect_body c s) = onMessage_id s"
  by (simp_all add: conn_effect_body_def connect_facts)

lemma wk_conn_effect_body: "wk (conn_effect_body c s) = wk s"
  by (rule wk_cong) (simp_all add: conn_effect_body_facts)

lemma wk_deps_update [simp]:
  "wk (s\<lparr>conn_effect_deps := x\<rparr>) = wk s"
  "wk (s\<lparr>step_effect_deps := y\<rparr>) = wk s"
  by (simp_all add: wk_def)

lemma commit_props:
  "life (commit s) = life s"
  "isRunning (commit s) = isRunning s"
  "simId (commit s) = simId s"
  "onMessage_id (commit s) = onMessage_id s"
  "step_effect_deps (commit s) = Some (isRunning s, isConnected s)"
  "conn_effect_deps (commit s) = Some (simId s, onMessage_id s)"
  by (auto simp: commit_def Let_def conn_effect_body_facts step_effect_body_facts
      conn_effect_cleanup_facts step_effect_cleanup_facts split: option.splits prod.splits)

lemma commit_isConnected:
  "conn_effect_deps s = Some (simId s, onMessage_id s) \<Longrightarrow> isConnected (commit s) = isConnected s"
  by (auto simp: commit_def Let_def step_effect_body_facts step_effect_cleanup_facts)

lemma commit_isConnected_down:
  "\<not> isConnected s \<Longrightarrow> \<not> isConnected (commit s)"
  by (auto simp: commit_def Let_def conn_effect_body_facts step_effect_body_facts
      conn_effect_cleanup_facts step_effect_cleanup_facts conn_effect_cleanup_def disconnect_facts
      clearTimeout_facts split: option.splits prod.splits)

lemma commit_single:
  assumes "single_interval s"
  shows "wk (commit s) \<and> (intervals (commit s) = [] \<or> (isRunning s \<and> isConnected s))"
proof (cases "step_effect_deps s = Some (isRunning s, isConnected s)")
  case True
  note same = this
  have w: "wk s" using assms by (simp add: single_interval_def)
  have d: "intervals s = [] \<or> (isRunning s \<and> isConnected s)"
    using assms same by (auto simp: single_interval_def)
  show ?thesis
  proof (cases "conn_effect_deps s = Some (simId s, onMessage_id s)")
    case True
    then show ?thesis using same w d by (simp add: commit_def Let_def)
  next
    case False
    then show ?thesis using same w d
      by (auto simp: commit_def Let_def wk_conn_effect_body conn_effect_body_facts
          conn_effect_cleanup_facts split: option.splits)
  qed
next
  case False
  note diff = this
  have w: "wk s" using assms by (simp add: single_interval_def)
  define s1 where "s1 = (if step_effect_deps s \<noteq> None then step_effect_cleanup s else s)"
  have e1: "intervals s1 = []"
  proof (cases "step_effect_deps s")
    case None
    then have "intervals s = []" using assms by (auto simp: single_interval_def)
    then show ?thesis by (simp add: s1_def None)
  next
    case (Some a)
    then show ?thesis by (simp add: s1_def step_effect_cleanup_facts w)
  qed
  define s2 where "s2 = (if conn_effect_deps s \<noteq> Some (simId s, onMessage_id s)
                then (case conn_effect_deps s of
                        Some (c, _) \<Rightarrow> conn_effect_cleanup c s1
                      | None \<Rightarrow> s1)
                else s1)"
  have e2: "intervals s2 = []"
    using e1 by (auto simp: s2_def conn_effect_cleanup_facts split: option.splits)
  define s3 where "s3 = (step_effect_body (isRunning s) (isConnected s) s2)
                       \<lparr>step_effect_deps := Some (isRunning s, isConnected s)\<rparr>"
  have w3: "wk s3" and d3: "intervals s3 = [] \<or> (isRunning s \<and> isConnected s)"
    using step_effect_body_facts(1,2) [OF e2, of "isRunning s" "isConnected s"]
    by (auto simp: s3_def wk_def)
  have c: "commit s = (if conn_effect_deps s \<noteq> Some (simId s, onMessage_id s)
         then (conn_effect_body (simId s) s3)\<lparr>conn_effect_deps := Some (simId s, onMessage_id s)\<rparr>
         else s3)"
    using diff unfolding commit_def Let_def s3_def s2_def s1_def by simp
  show ?thesis
    using w3 d3 by (auto simp: c wk_def conn_effect_body_facts)
qed

lemma rerender_inv:
  assumes "single_interval s"
  shows "single_interval (rerender s) \<and> settled (rerender s)"
proof (cases "life s = Mounted")
  case False
  then show ?thesis using assms by (simp add: rerender_def settled_def)
next
  case True
  define s1 where "s1 = commit s"
  have p1: "life s1 = Mounted" "isRunning s1 = isRunning s" "simId s1 = simId s"
    "onMessage_id s1 = onMessage_id s" "step_effect_deps s1 = Some (isRunning s, isConnected s)"
    "conn_effect_deps s1 = Some (simId s, onMessage_id s)"
    by (simp_all add: s1_def commit_props True)
  have si1: "single_interval s1"
    using commit_single [OF assms] p1 by (auto simp: single_interval_def s1_def)
  show ?thesis
  proof (cases "isConnected s1 = isConnected s")
    case True
    then have "rerender s = s1" using \<open>life s = Mounted\<close> by (simp add: rerender_def s1_def Let_def)
    then show ?thesis using si1 p1 True by (simp add: settled_def)
  next
    case False
    then have r: "rerender s = commit s1"
      using \<open>life s = Mounted\<close> by (simp add: rerender_def s1_def Let_def)
    have c: "isConnected (commit s1) = isConnected s1"
      by (rule commit_isConnected) (simp add: p1)
    have "single_interval (commit s1)"
      using commit_single [OF si1] by (auto simp: single_interval_def commit_props p1)
    then show ?thesis
      by (simp add: r settled_def commit_props c)
  qed
qed

lemma single_interval_cong:
  "single_interval s \<Longrightarrow> intervals s' = intervals s \<Longrightarrow> stepIntervalRef s' = stepIntervalRef s \<Longrightarrow>
   step_effect_deps s' = step_effect_deps s \<Longrightarrow> life s' = life s \<Longrightarrow> single_interval s'"
  by (simp add: single_interval_def wk_def)

lemma single_interval_empty: "intervals s = [] \<Longrightarrow> single_interval s"
  by (simp add: single_interval_def wk_def)

lemma single_interval_wk: "single_interval s \<Longrightarrow> wk s"
  by (simp add: single_interval_def)

lemma sendStep_facts:
  "intervals (sendStep s) = intervals s"
  "stepIntervalRef (sendStep s) = stepIntervalRef s"
  "step_effect_deps (sendStep s) = step_effect_deps s"
  "conn_effect_deps (sendStep s) = conn_effect_deps s"
  "life (sendStep s) = life s"
  "isRunning (sendStep s) = isRunning s"
  "isConnected (sendStep s) = isConnected s"
  "simId (sendStep s) = simId s"
  "onMessage_id (sendStep s) = onMessage_id s"
  by (simp_all add: sendStep_def split: option.splits)

lemma ws_onmessage_facts:
  "intervals (snd (ws_onmessage h d s)) = intervals s"
  "stepIntervalRef (snd (ws_onmessage h d s)) = stepIntervalRef s"
  "step_effect_deps (snd (ws_onmessage h d s)) = step_effect_deps s"
  "conn_effect_deps (snd (ws_onmessage h d s)) = conn_effect_deps s"
  "life (snd (ws_onmessage h d s)) = life s"
  "isRunning (snd (ws_onmessage h d s)) = isRunning s"
  "isConnected (snd (ws_onmessage h d s)) = isConnected s"
  "simId (snd (ws_onmessage h d s)) = simId s"
  "onMessage_id (snd (ws_onmessage h d s)) = onMessage_id s"
  "sockets (snd (ws_onmessage h d s)) = sockets s"
  by (auto simp: ws_onmessage_def try_catch_def console_error_def
      split: sum.splits prod.splits option.splits)

lemma single_interval_Render:
  "single_interval s \<Longrightarrow>
   single_interval (s\<lparr>simId := c, onMessage_id := m, isRunning := r, life := Mounted\<rparr>)"
  by (auto simp: single_interval_def wk_def)

lemma single_interval_returned_connect:
  "single_interval s \<Longrightarrow> single_interval (returned_connect s)"
  by (erule single_interval_cong)
    (simp_all add: returned_connect_def connect_facts clearTimeout_facts split: option.splits)

lemma single_interval_disconnect:
  "single_interval s \<Longrightarrow> single_interval (disconnect s)"
  by (rule single_interval_empty) (simp add: disconnect_facts single_interval_wk)

lemma single_interval_ws_onopen:
  "single_interval s \<Longrightarrow> single_interval (ws_onopen (set_readyState i r s))"
  by (erule single_interval_cong) (simp_all add: ws_onopen_def set_readyState_def)

lemma single_interval_ws_onmessage:
  "single_interval s \<Longrightarrow> single_interval (snd (ws_onmessage h d s))"
  by (erule single_interval_cong) (simp_all add: ws_onmessage_facts)

lemma single_interval_ws_onerror:
  "single_interval s \<Longrightarrow> single_interval (ws_onerror s)"
  by (erule single_interval_cong) (simp_all add: ws_onerror_def)

lemma intervals_ws_onclose:
  "wk s \<Longrightarrow> intervals (ws_onclose c (set_readyState i r s)) = []"
proof (cases "stepIntervalRef s")
  case None
  assume "wk s"
  then have "intervals s = []" using None by (rule wk_no_ref)
  then show ?thesis
    by (simp add: ws_onclose_def Let_def set_readyState_def None)
next
  case (Some t)
  assume "wk s"
  then have "filter (\<lambda>e. fst e \<noteq> t) (intervals s) = []" using Some by (rule wk_clear)
  then show ?thesis
    by (simp add: ws_onclose_def Let_def set_readyState_def Some clearInterval_def)
qed

lemma single_interval_ws_onclose:
  "single_interval s \<Longrightarrow> single_interval (ws_onclose c (set_readyState i r s))"
  by (rule single_interval_empty) (simp add: intervals_ws_onclose single_interval_wk)

lemma single_interval_fire_timeout:
  "single_interval s \<Longrightarrow> single_interval (fire_timeout t s)"
  by (erule single_interval_cong)
    (simp_all add: fire_timeout_def connect_facts clearTimeout_facts split: list.splits)

lemma single_interval_fire_interval:
  "single_interval s \<Longrightarrow> single_interval (fire_interval t s)"
  by (auto simp: single_interval_def wk_def fire_interval_def sendStep_facts)

lemma single_interval_unmount:
  "single_interval s \<Longrightarrow> single_interval (unmount s)"
proof (rule single_interval_empty)
  assume a: "single_interval s"
  define s1 where "s1 = (if step_effect_deps s \<noteq> None then step_effect_cleanup s else s)"
  have "intervals s1 = []"
    using a by (auto simp: s1_def step_effect_cleanup_facts single_interval_def)
  then have "intervals (case conn_effect_deps s of Some (c, _) \<Rightarrow> conn_effect_cleanup c s1
      | None \<Rightarrow> s1) = []"
    by (auto simp: conn_effect_cleanup_facts split: option.splits)
  then show "intervals (unmount s) = []"
    unfolding unmount_def Let_def s1_def by simp
qed

lemma settled_not_mounted: "life s \<noteq> Mounted \<Longrightarrow> settled s"
  by (simp add: settled_def)

lemma life_unmount: "life (unmount s) = Unmounted"
  by (simp add: unmount_def Let_def)

lemma handle_inv:
  assumes "hook_inv s"
  shows "hook_inv (handle h e s)"
proof -
  have si: "single_interval s" and sb: "settled s"
    using assms by (simp_all add: hook_inv_def)
  show ?thesis
  proof (cases e)
    case (Render c m r)
    then show ?thesis
      using rerender_inv [OF single_interval_Render [OF si]] by (simp add: hook_inv_def)
  next
    case Unmount
    then show ?thesis
      using single_interval_unmount [OF si] by (simp add: hook_inv_def settled_not_mounted life_unmount)
  next
    case CallConnect
    then show ?thesis
      using rerender_inv [OF single_interval_returned_connect [OF si]] by (simp add: hook_inv_def)
  next
    case CallDisconnect
    then show ?thesis
      using rerender_inv [OF single_interval_disconnect [OF si]] by (simp add: hook_inv_def)
  next
    case CallSendStep
    have "single_interval (sendStep s)"
      using si by (rule single_interval_cong) (simp_all add: sendStep_facts)
    moreover have "settled (sendStep s)"
      using sb by (simp add: settled_def sendStep_facts)
    ultimately show ?thesis using CallSendStep by (simp add: hook_inv_def)
  next
    case (WsOpen i)
    then show ?thesis
      using rerender_inv [OF single_interval_ws_onopen [OF si]] by (simp add: hook_inv_def)
  next
    case (WsMessage i d)
    then show ?thesis
      using rerender_inv [OF single_interval_ws_onmessage [OF si]] by (simp add: hook_inv_def)
  next
    case (WsError i)
    then show ?thesis
      using rerender_inv [OF single_interval_ws_onerror [OF si]] by (simp add: hook_inv_def)
  next
    case (WsClose i)
    then show ?thesis
      using rerender_inv [OF single_interval_ws_onclose [OF si]] by (simp add: hook_inv_def)
  next
    case (Elapse d)
    then show ?thesis
      using si sb by (simp add: hook_inv_def single_interval_def wk_def settled_def)
  next
    case (FireTimeout t)
    then show ?thesis
      using rerender_inv [OF single_interval_fire_timeout [OF si]] by (simp add: hook_inv_def)
  next
    case (FireInterval t)
    then show ?thesis
      using rerender_inv [OF single_interval_fire_interval [OF si]] by (simp add: hook_inv_def)
  qed
qed

lemma hook_inv_init: "hook_inv (init a)"
  by (simp add: hook_inv_def single_interval_def wk_def settled_def init_def)

lemma exec_inv_from: "hook_inv s \<Longrightarrow> exec h es s = Some s' \<Longrightarrow> hook_inv s'"
proof (induction es arbitrary: s)
  case Nil
  then show ?case by simp
next
  case (Cons e es)
  from Cons.prems(2) have "exec h es (handle h e s) = Some s'"
    by (simp add: step_def split: if_splits)
  moreover have "hook_inv (handle h e s)" using Cons.prems(1) by (rule handle_inv)
  ultimately show ?case by (rule Cons.IH [rotated])
qed

lemma exec_inv: "exec h es (init a) = Some s \<Longrightarrow> hook_inv s"
  using hook_inv_init by (rule exec_inv_from)

lemma rerender_settled: "settled s \<Longrightarrow> rerender s = s"
  by (auto simp: settled_def rerender_def commit_def Let_def)

lemma hook_inv_intervals:
  assumes "hook_inv s" and "intervals s \<noteq> []"
  shows "isRunning s \<and> isConnected s \<and> life s = Mounted"
  using assms by (auto simp: hook_inv_def single_interval_def settled_def)

lemma hook_inv_interval_mem:
  assumes "hook_inv s" and "(t, d) \<in> set (intervals s)"
  shows "intervals s = [(t, d)] \<and> stepIntervalRef s = Some t"
proof -
  have "wk s" using assms(1) by (simp add: hook_inv_def single_interval_def)
  then have l: "length (intervals s) \<le> 1" and r: "stepIntervalRef s = Some t"
    using assms(2) by (auto simp: wk_def)
  from l assms(2) have "intervals s = [(t, d)]"
    by (cases "intervals s") auto
  with r show ?thesis by simp
qed

lemma sum_list_map_update:
  fixes f :: "'b \<Rightarrow> nat"
  shows "i < length xs \<Longrightarrow>
    sum_list (map f (xs[i := y])) + f (xs ! i) = sum_list (map f xs) + f y"
  by (induction xs arbitrary: i) (auto split: nat.splits)

lemma sockets_clear:
  "sockets (clearTimeout t s) = sockets s"
  "sockets (clearInterval t s) = sockets s"
  "wsRef (clearTimeout t s) = wsRef s"
  "wsRef (clearInterval t s) = wsRef s"
  by (simp_all add: clearTimeout_def clearInterval_def)

lemma sent_count_cong: "sockets s' = sockets s \<Longrightarrow> sent_count s' = sent_count s"
  by (simp add: sent_count_def)

lemma sent_count_readyState:
  "sum_list (map (\<lambda>w. length (outbox w)) (xs[i := (xs ! i)\<lparr>readyState := r\<rparr>])) =
   sum_list (map (\<lambda>w. length (outbox w)) xs)"
proof (cases "i < length xs")
  case True
  then show ?thesis
    using sum_list_map_update [of i xs "\<lambda>w. length (outbox w)" "(xs ! i)\<lparr>readyState := r\<rparr>"]
    by simp
next
  case False
  then show ?thesis by (simp add: list_update_beyond)
qed

lemma sent_count_frame:
  "sent_count (clearTimeout t s) = sent_count s"
  "sent_count (clearInterval t s) = sent_count s"
  "sent_count (set_readyState i r s) = sent_count s"
  "sent_count (ws_close i s) = sent_count s"
  "sent_count (ws_onopen s) = sent_count s"
  "sent_count (ws_onerror s) = sent_count s"
  "sent_count (snd (ws_onmessage h d s)) = sent_count s"
  by (simp_all add: sent_count_def clearTimeout_def clearInterval_def ws_onopen_def
      ws_onerror_def set_readyState_def ws_close_def sent_count_readyState ws_onmessage_facts)

lemma sent_count_connect: "sent_count (connect c s) = sent_count s"
proof -
  have "sent_count (s1\<lparr>sockets := sockets s1 @ [\<lparr>ws_simId = sid, readyState = CONNECTING, outbox = []\<rparr>],
      wsRef := Some n\<rparr>) = sent_count s1" for s1 :: "'a hook" and sid n
    by (simp add: sent_count_def)
  then show ?thesis
    by (simp add: connect_def Let_def sent_count_frame split: option.splits)
qed

lemma sockets_ws_close_wsRef: "wsRef (ws_close i s) = wsRef s"
  by (simp add: ws_close_def)

lemma sent_count_disconnect: "sent_count (disconnect s) = sent_count s"
proof -
  define s1 where "s1 = (case reconnectTimeoutRef s of
                  Some t \<Rightarrow> (clearTimeout t s)\<lparr>reconnectTimeoutRef := None\<rparr>
                | None \<Rightarrow> s)"
  define s2 where "s2 = (case stepIntervalRef s1 of
                  Some t \<Rightarrow> (clearInterval t s1)\<lparr>stepIntervalRef := None\<rparr>
                | None \<Rightarrow> s1)"
  have 1: "sockets s1 = sockets s"
    by (simp add: s1_def sockets_clear split: option.splits)
  have 2: "sockets s2 = sockets s1"
    by (simp add: s2_def sockets_clear split: option.splits)
  have 3: "sent_count (disconnect s) = sent_count s2"
    unfolding disconnect_def Let_def s2_def [symmetric] s1_def [symmetric]
    by (auto split: option.splits
        intro: trans [OF sent_count_cong sent_count_frame(4)])
  show ?thesis using 1 2 3 by (simp add: sent_count_def)
qed

lemma sent_count_ws_onclose: "sent_count (ws_onclose c s) = sent_count s"
  by (rule sent_count_cong)
    (simp add: ws_onclose_def Let_def sockets_clear split: option.splits)

lemma sent_count_effects:
  "sent_count (step_effect_cleanup s) = sent_count s"
  "sent_count (step_effect_body r c s) = sent_count s"
  "sent_count (conn_effect_cleanup k s) = sent_count s"
  "sent_count (conn_effect_body k s) = sent_count s"
proof -
  show "sent_count (step_effect_cleanup s) = sent_count s"
    by (simp add: step_effect_cleanup_def sent_count_frame split: option.splits)
  show "sent_count (step_effect_body r c s) = sent_count s"
    by (rule sent_count_cong) (simp add: step_effect_body_def sockets_clear split: option.splits)
  show "sent_count (conn_effect_cleanup k s) = sent_count s"
    by (simp add: conn_effect_cleanup_def sent_count_disconnect sent_count_frame
        split: option.splits)
  show "sent_count (conn_effect_body k s) = sent_count s"
    by (simp add: conn_effect_body_def sent_count_connect)
qed

lemma sent_count_deps:
  "sent_count (x\<lparr>step_effect_deps := p\<rparr>) = sent_count x"
  "sent_count (x\<lparr>conn_effect_deps := q\<rparr>) = sent_count x"
  "sent_count (x\<lparr>life := l\<rparr>) = sent_count x"
  by (simp_all add: sent_count_def)

lemma sent_count_commit: "sent_count (commit s) = sent_count s"
  unfolding commit_def Let_def
  by (simp add: sent_count_deps sent_count_effects split: option.splits prod.splits)

lemma sent_count_rerender: "sent_count (rerender s) = sent_count s"
  by (simp add: rerender_def Let_def sent_count_commit)

lemma sent_count_unmount: "sent_count (unmount s) = sent_count s"
  unfolding unmount_def Let_def
  by (simp add: sent_count_deps sent_count_effects split: option.splits prod.splits)

lemma sendStep_closed: "\<not> channel_open s \<Longrightarrow> sendStep s = s"
  by (auto simp: sendStep_def channel_open_def split: option.splits)

lemma sent_count_sendStep_open:
  assumes "channel_open s"
  shows "sent_count (sendStep s) = sent_count s + 1 \<and>
         (case wsRef s of
            Some i \<Rightarrow> outbox (sockets (sendStep s) ! i) = outbox (sockets s ! i) @ [step_msg]
          | None \<Rightarrow> False)"
proof -
  from assms obtain i where i: "wsRef s = Some i" "i < length (sockets s)"
    "readyState (sockets s ! i) = OPEN"
    by (auto simp: channel_open_def split: option.splits)
  show ?thesis
    using sum_list_map_update [of i "sockets s" "\<lambda>w. length (outbox w)"
        "(sockets s ! i)\<lparr>outbox := outbox (sockets s ! i) @ [step_msg]\<rparr>"] i
    by (simp add: sendStep_def sent_count_def)
qed

lemma sent_count_handle_closed:
  assumes "\<not> channel_open s"
  shows "sent_count (handle h e s) = sent_count s"
proof (cases e)
  case (FireInterval t)
  have "\<not> channel_open (s\<lparr>intervals := iv\<rparr>)" for iv
    using assms by (simp add: channel_open_def split: option.splits)
  moreover have "sent_count (s\<lparr>intervals := iv\<rparr>) = sent_count s" for iv
    by (simp add: sent_count_def)
  ultimately show ?thesis
    by (simp add: FireInterval fire_interval_def sendStep_closed sent_count_rerender)
next
  case CallSendStep
  then show ?thesis using assms by (simp add: sendStep_closed)
next
  case (Render c m r)
  have "sent_count (s\<lparr>simId := c, onMessage_id := m, isRunning := r, life := Mounted\<rparr>) = sent_count s"
    by (simp add: sent_count_def)
  then show ?thesis by (simp add: Render sent_count_rerender)
next
  case (Elapse d)
  then show ?thesis by (simp add: sent_count_def)
next
  case (FireTimeout t)
  then show ?thesis
    by (simp add: sent_count_rerender fire_timeout_def sent_count_connect sent_count_frame
        split: list.splits)
qed (simp_all add: sent_count_rerender sent_count_unmount returned_connect_def
    sent_count_connect sent_count_disconnect sent_count_frame sent_count_ws_onclose
    split: option.splits)

lemma hook_inv_settled: "hook_inv s \<Longrightarrow> settled s"
  by (simp add: hook_inv_def)

lemma hook_inv_not_running: "hook_inv s \<Longrightarrow> \<not> isRunning s \<Longrightarrow> intervals s = []"
  using hook_inv_intervals by blast

lemma hook_inv_not_connected: "hook_inv s \<Longrightarrow> \<not> isConnected s \<Longrightarrow> intervals s = []"
  using hook_inv_intervals by blast

lemma rerender_isRunning: "isRunning (rerender s) = isRunning s"
  by (simp add: rerender_def Let_def commit_props)

lemma start_running:
  assumes "hook_inv s" and "life s = Mounted" and "isConnected s" and "\<not> isRunning s"
  shows "handle h (Render (simId s) (onMessage_id s) True) s =
     s\<lparr>isRunning := True, intervals := [(next_timer s, now s + 100)],
       next_timer := next_timer s + 1, stepIntervalRef := Some (next_timer s),
       step_effect_deps := Some (True, True)\<rparr>"
proof -
  have e: "intervals s = []"
    using assms(1,4) by (rule hook_inv_not_running)
  have d: "step_effect_deps s = Some (False, True)"
    "conn_effect_deps s = Some (simId s, onMessage_id s)"
    using hook_inv_settled [OF assms(1)] assms(2,3,4) by (simp_all add: settled_def)
  show ?thesis
    by (cases "stepIntervalRef s")
      (simp_all add: rerender_def commit_def Let_def step_effect_cleanup_def
        step_effect_body_def clearInterval_def assms(2,3,4) d e)
qed

lemma tick:
  assumes "hook_inv s" and "(t, d) \<in> set (intervals s)"
  shows "handle h (FireInterval t) s = sendStep (s\<lparr>intervals := [(t, d + 100)]\<rparr>)"
proof -
  have i: "intervals s = [(t, d)]"
    using hook_inv_interval_mem [OF assms] by simp
  have "settled (sendStep (s\<lparr>intervals := [(t, d + 100)]\<rparr>))"
    using hook_inv_settled [OF assms(1)] by (simp add: settled_def sendStep_facts)
  then show ?thesis
    by (simp add: fire_interval_def i rerender_settled)
qed

lemma channel_open_cong:
  "sockets s' = sockets s \<Longrightarrow> wsRef s' = wsRef s \<Longrightarrow> channel_open s' = channel_open s"
  by (auto simp: channel_open_def split: option.splits)

lemma channel_open_intervals [simp]: "channel_open (s\<lparr>intervals := iv\<rparr>) = channel_open s"
  by (rule channel_open_cong) simp_all

lemma sent_count_intervals [simp]: "sent_count (s\<lparr>intervals := iv\<rparr>) = sent_count s"
  by (simp add: sent_count_def)

subsection \<open>Example runs\<close>

lemmas hook_defs = step_def init_def rerender_def commit_def unmount_def Let_def
  step_effect_body_def step_effect_cleanup_def conn_effect_body_def conn_effect_cleanup_def
  connect_def disconnect_def returned_connect_def ws_close_def ws_onopen_def ws_onerror_def
  ws_onclose_def ws_onmessage_def try_catch_def console_error_def sendStep_def
  set_readyState_def fire_timeout_def fire_interval_def clearTimeout_def clearInterval_def
  truthy_id_def get_prop_def

lemma exec_example_connecting:
  "exec App_onMessage [Render (Some ''sim1'') 0 False] (init app0) = Some example_connecting"
  by (simp add: hook_defs example_connecting_def)

lemma exec_example_connected:
  "exec App_onMessage [Render (Some ''sim1'') 0 False, WsOpen 0] (init app0) = Some example_connected"
  by (simp add: hook_defs example_connecting_def example_connected_def)

lemma exec_example_started:
  "exec App_onMessage [Render (Some ''sim1'') 0 False, WsOpen 0, Render (Some ''sim1'') 0 True]
     (init app0) = Some example_started"
  by (simp add: hook_defs example_connecting_def example_connected_def example_started_def)

lemma exec_example_running:
  "exec App_onMessage [Render (Some ''sim1'') 0 False, WsOpen 0, Render (Some ''sim1'') 0 True,
      Elapse 100] (init app0) = Some example_running"
  by (simp add: hook_defs example_connecting_def example_connected_def example_started_def
      example_running_def)

lemma exec_example_stale:
  "exec App_onMessage [Render (Some ''sim1'') 0 False, WsOpen 0, CallConnect] (init app0) =
     Some example_stale"
  by (simp add: hook_defs example_connecting_def example_connected_def example_stale_def)

subsection \<open>Paced advance signals\<close>

lemma channel_open_sendStep: "channel_open (sendStep s) = channel_open s"
  by (auto simp: channel_open_def sendStep_def nth_list_update split: option.splits)

lemma now_sendStep: "now (sendStep s) = now s"
  by (simp add: sendStep_def split: option.splits)

lemma paced_run:
  assumes "hook_inv s" and "intervals s = [(t, d)]" and "d = now s + 100" and "channel_open s"
  shows "map_option (\<lambda>u. (sent_count u, now u, intervals u))
           (exec h (concat (replicate k [Elapse 100, FireInterval t])) s) =
         Some (sent_count s + k, now s + 100 * k, [(t, d + 100 * k)])"
  using assms
proof (induction k arbitrary: s d)
  case 0
  then show ?case by simp
next
  case (Suc k)
  define s1 where "s1 = handle h (Elapse 100) s"
  define s2 where "s2 = handle h (FireInterval t) s1"
  have i1: "hook_inv s1" unfolding s1_def using Suc.prems(1) by (rule handle_inv)
  have f1: "intervals s1 = [(t, d)]" "now s1 = now s + 100" "sent_count s1 = sent_count s"
    "channel_open s1"
    using Suc.prems(2,4)
    by (simp_all add: s1_def sent_count_def channel_open_cong [of "s\<lparr>now := now s + 100\<rparr>" s])
  have m: "(t, d) \<in> set (intervals s1)" by (simp add: f1)
  have e2: "enabled (FireInterval t) s1"
    using Suc.prems(3) by (simp add: f1)
  have t2: "s2 = sendStep (s1\<lparr>intervals := [(t, d + 100)]\<rparr>)"
    unfolding s2_def using i1 m by (rule tick)
  have i2: "hook_inv s2" unfolding s2_def using i1 by (rule handle_inv)
  have c: "channel_open (s1\<lparr>intervals := [(t, d + 100)]\<rparr>)"
    using f1(4) by simp
  have f2: "intervals s2 = [(t, d + 100)]" "now s2 = now s + 100"
    "sent_count s2 = sent_count s + 1" "channel_open s2"
    using sent_count_sendStep_open [OF c] c
    by (simp_all add: t2 sendStep_facts now_sendStep channel_open_sendStep f1)
  have "map_option (\<lambda>u. (sent_count u, now u, intervals u))
           (exec h (concat (replicate k [Elapse 100, FireInterval t])) s2) =
         Some (sent_count s2 + k, now s2 + 100 * k, [(t, d + 100 + 100 * k)])"
    using i2 f2(1) _ f2(4) by (rule Suc.IH) (simp add: f2 Suc.prems(3))
  moreover have "exec h (concat (replicate (Suc k) [Elapse 100, FireInterval t])) s =
      exec h (concat (replicate k [Elapse 100, FireInterval t])) s2"
    using e2 by (simp add: step_def s1_def [symmetric] s2_def [symmetric] del: handle.simps)
  ultimately show ?case by (simp add: f2 add.assoc)
qed

lemma not_due_not_enabled:
  assumes "hook_inv s" and "(t, d) \<in> set (intervals s)" and "now s < d"
  shows "\<not> enabled (FireInterval t') s"
  using hook_inv_interval_mem [OF assms(1,2)] assms(3) by auto

lemma sent_count_handle_other:
  assumes "e \<noteq> CallSendStep" and "\<forall>t. e \<noteq> FireInterval t"
  shows "sent_count (handle h e s) = sent_count s"
proof (cases e)
  case (Render c m r)
  have "sent_count (s\<lparr>simId := c, onMessage_id := m, isRunning := r, life := Mounted\<rparr>) = sent_count s"
    by (simp add: sent_count_def)
  then show ?thesis by (simp add: Render sent_count_rerender)
next
  case (Elapse d)
  then show ?thesis by (simp add: sent_count_def)
next
  case (FireTimeout t)
  then show ?thesis
    by (simp add: sent_count_rerender fire_timeout_def sent_count_connect sent_count_frame
        split: list.splits)
next
  case CallSendStep
  then show ?thesis using assms by simp
next
  case (FireInterval t)
  then show ?thesis using assms by simp
qed (simp_all add: sent_count_rerender sent_count_unmount returned_connect_def
    sent_count_connect sent_count_disconnect sent_count_frame sent_count_ws_onclose
    split: option.splits)

text \<open>
  While the manager is not Connected, no event that can happen sends anything, a call of
  the returned \<open>sendStep\<close> by the owner apart (and \<open>handleStep\<close>, its only caller in
  \<open>App\<close>, makes that call only when \<open>isConnected\<close> holds).
\<close>

lemma nothing_sent_while_not_connected:
  assumes "exec h es (init a) = Some s" and "\<not> Connected s" and "enabled e s"
    and "e \<noteq> CallSendStep"
  shows "sent_count (handle h e s) = sent_count s"
proof (cases "channel_open s")
  case False
  then show ?thesis by (rule sent_count_handle_closed)
next
  case True
  with assms(2) have "\<not> isConnected s" by (simp add: Connected_def)
  with hook_inv_not_connected [OF exec_inv [OF assms(1)]] have "intervals s = []" by simp
  with assms(3) have "\<forall>t. e \<noteq> FireInterval t" by auto
  with assms(4) show ?thesis by (rule sent_count_handle_other)
qed

text \<open>
  What does hold, in every state the hook can reach: when the running flag becomes true
  in a render that changes nothing else, the identity of the callback included, while the
  component is mounted and the manager is Connected, exactly one interval is started,
  first due 100 ms later, and the manager stays Connected; whenever an interval
  is pending, both flags are set, its firing makes it due 100 ms after it was due and, the
  channel being open, sends exactly one step signal on the current socket; an interval that
  is not yet due cannot fire, and with an interval first due in 100 ms and the channel open,
  \<open>k\<close> rounds of 100 ms passing and the interval firing are possible and send exactly
  \<open>k\<close> signals in \<open>100 * k\<close> ms; a render with the running flag false leaves no
  interval at all, and no interval exists while the flag is false; no interval exists while
  \<open>isConnected\<close> is false, and while the channel is not open no event whatever sends
  anything.
\<close>

theorem paced_advance_signals:
  assumes "exec h es (init a) = Some s"
  shows "(life s = Mounted \<and> Connected s \<and> \<not> isRunning s \<longrightarrow>
            intervals (handle h (Render (simId s) (onMessage_id s) True) s) =
              [(next_timer s, now s + 100)] \<and>
            Connected (handle h (Render (simId s) (onMessage_id s) True) s)) \<and>
         ((t, d) \<in> set (intervals s) \<longrightarrow>
            isRunning s \<and> isConnected s \<and>
            intervals (handle h (FireInterval t) s) = [(t, d + 100)] \<and>
            (channel_open s \<longrightarrow>
               sent_count (handle h (FireInterval t) s) = sent_count s + 1 \<and>
               (case wsRef s of
                  Some i \<Rightarrow>
                    outbox (sockets (handle h (FireInterval t) s) ! i) =
                      outbox (sockets s ! i) @ [step_msg]
                | None \<Rightarrow> False))) \<and>
         ((t, d) \<in> set (intervals s) \<and> now s < d \<longrightarrow> \<not> enabled (FireInterval t') s) \<and>
         ((t, d) \<in> set (intervals s) \<and> d = now s + 100 \<and> channel_open s \<longrightarrow>
            map_option (\<lambda>u. (sent_count u, now u, intervals u))
              (exec h (concat (replicate k [Elapse 100, FireInterval t])) s) =
            Some (sent_count s + k, now s + 100 * k, [(t, d + 100 * k)])) \<and>
         intervals (handle h (Render c m False) s) = [] \<and>
         (\<not> isRunning s \<longrightarrow> intervals s = []) \<and>
         (\<not> isConnected s \<longrightarrow> intervals s = []) \<and>
         (\<not> channel_open s \<longrightarrow> sent_count (handle h e s) = sent_count s)"
proof -
  have inv: "hook_inv s" using assms by (rule exec_inv)
  have A: "intervals (handle h (Render (simId s) (onMessage_id s) True) s) =
              [(next_timer s, now s + 100)] \<and>
            Connected (handle h (Render (simId s) (onMessage_id s) True) s)"
    if "life s = Mounted" "Connected s" "\<not> isRunning s"
  proof -
    have "channel_open (s\<lparr>isRunning := True, intervals := [(next_timer s, now s + 100)],
       next_timer := next_timer s + 1, stepIntervalRef := Some (next_timer s),
       step_effect_deps := Some (True, True)\<rparr>) = channel_open s"
      by (rule channel_open_cong) simp_all
    then show ?thesis
      using that start_running [OF inv, of h] by (simp add: Connected_def)
  qed
  have B: "isRunning s \<and> isConnected s \<and>
            intervals (handle h (FireInterval t) s) = [(t, d + 100)] \<and>
            (channel_open s \<longrightarrow>
               sent_count (handle h (FireInterval t) s) = sent_count s + 1 \<and>
               (case wsRef s of
                  Some i \<Rightarrow>
                    outbox (sockets (handle h (FireInterval t) s) ! i) =
                      outbox (sockets s ! i) @ [step_msg]
                | None \<Rightarrow> False))"
    if m: "(t, d) \<in> set (intervals s)"
  proof -
    have "intervals s \<noteq> []" using m by auto
    then have 1: "isRunning s \<and> isConnected s"
      using hook_inv_intervals [OF inv] by simp
    have 2: "handle h (FireInterval t) s = sendStep (s\<lparr>intervals := [(t, d + 100)]\<rparr>)"
      using inv m by (rule tick)
    have 3: "sent_count (handle h (FireInterval t) s) = sent_count s + 1 \<and>
               (case wsRef s of
                  Some i \<Rightarrow>
                    outbox (sockets (handle h (FireInterval t) s) ! i) =
                      outbox (sockets s ! i) @ [step_msg]
                | None \<Rightarrow> False)" if "channel_open s"
      using sent_count_sendStep_open [of "s\<lparr>intervals := [(t, d + 100)]\<rparr>"] that
      unfolding 2 by (simp split: option.splits)
    have 4: "intervals (handle h (FireInterval t) s) = [(t, d + 100)]"
      unfolding 2 by (simp add: sendStep_facts)
    show ?thesis using 1 3 4 by blast
  qed
  have C: "intervals (handle h (Render c m False) s) = []"
  proof -
    have "hook_inv (handle h (Render c m False) s)" using inv by (rule handle_inv)
    moreover have "\<not> isRunning (handle h (Render c m False) s)"
      by (simp add: rerender_isRunning)
    ultimately show ?thesis by (rule hook_inv_not_running)
  qed
  have D: "map_option (\<lambda>u. (sent_count u, now u, intervals u))
              (exec h (concat (replicate k [Elapse 100, FireInterval t])) s) =
            Some (sent_count s + k, now s + 100 * k, [(t, d + 100 * k)])"
    if "(t, d) \<in> set (intervals s)" "d = now s + 100" "channel_open s"
  proof -
    have "intervals s = [(t, d)]"
      using hook_inv_interval_mem [OF inv that(1)] by simp
    with inv show ?thesis using that(2,3) by (rule paced_run)
  qed
  show ?thesis
    using A B C D not_due_not_enabled [OF inv, of t d t']
      hook_inv_not_running [OF inv] hook_inv_not_connected [OF inv]
      sent_count_handle_closed [of s h e]
    by blast
qed

theorem paced_advance_signals_witness:
  "exec App_onMessage [Render (Some ''sim1'') 0 False, WsOpen 0] (init app0) =
     Some example_connected \<and>
   life example_connected = Mounted \<and> Connected example_connected \<and>
   \<not> isRunning example_connected \<and>
   intervals (handle App_onMessage (Render (Some ''sim1'') 0 True) example_connected) = [(1, 100)] \<and>
   exec App_onMessage [Render (Some ''sim1'') 0 False, WsOpen 0, Render (Some ''sim1'') 0 True,
      Elapse 100] (init app0) = Some example_running \<and>
   (1, 100) \<in> set (intervals example_running) \<and> channel_open example_running \<and>
   intervals (handle App_onMessage (FireInterval 1) example_running) = [(1, 200)] \<and>
   sent_count (handle App_onMessage (FireInterval 1) example_running) = 1 \<and>
   exec App_onMessage [Render (Some ''sim1'') 0 False, WsOpen 0, Render (Some ''sim1'') 0 True]
     (init app0) = Some example_started \<and>
   (1, 100) \<in> set (intervals example_started) \<and> now example_started < 100 \<and>
   \<not> enabled (FireInterval 1) example_started \<and>
   100 = now example_started + 100 \<and> channel_open example_started \<and>
   map_option (\<lambda>u. (sent_count u, now u, intervals u))
     (exec App_onMessage (concat (replicate 3 [Elapse 100, FireInterval 1])) example_started) =
     Some (3, 300, [(1, 400)]) \<and>
   exec App_onMessage [Render (Some ''sim1'') 0 False] (init app0) = Some example_connecting \<and>
   \<not> isRunning example_connecting \<and> \<not> isConnected example_connecting \<and>
   \<not> channel_open example_connecting \<and> intervals example_connecting = [] \<and>
   sent_count (handle App_onMessage CallSendStep example_connecting) = 0"
proof -
  have w4: "(1, 100) \<in> set (intervals example_started)" "now example_started < 100"
    "100 = now example_started + 100" "channel_open example_started"
    "sent_count example_started = 0" "now example_started = 0"
    by (simp_all add: example_started_def example_connected_def example_connecting_def
        channel_open_def sent_count_def)
  note t4 = paced_advance_signals [OF exec_example_started, where t = 1 and d = 100
      and t' = 1 and k = 3]
  from t4 w4(1,2) have D1: "\<not> enabled (FireInterval 1) example_started"
    by blast
  from t4 w4(1,3,4) have "map_option (\<lambda>u. (sent_count u, now u, intervals u))
     (exec App_onMessage (concat (replicate 3 [Elapse 100, FireInterval 1])) example_started) =
     Some (sent_count example_started + 3, now example_started + 100 * 3, [(1, 100 + 100 * 3)])"
    by blast
  then have D2: "map_option (\<lambda>u. (sent_count u, now u, intervals u))
     (exec App_onMessage (concat (replicate 3 [Elapse 100, FireInterval 1])) example_started) =
     Some (3, 300, [(1, 400)])"
    unfolding w4(5,6) by simp
  have w1: "life example_connected = Mounted" "Connected example_connected"
    "\<not> isRunning example_connected" "simId example_connected = Some ''sim1''"
    "onMessage_id example_connected = 0" "next_timer example_connected = 1"
    "now example_connected = 0"
    by (simp_all add: example_connected_def example_connecting_def Connected_def
        channel_open_def)
  have w2: "(1, 100) \<in> set (intervals example_running)" "channel_open example_running"
    "sent_count example_running = 0"
    by (simp_all add: example_running_def example_started_def example_connected_def
        example_connecting_def channel_open_def sent_count_def)
  have w3: "\<not> isRunning example_connecting" "\<not> isConnected example_connecting"
    "\<not> channel_open example_connecting" "sent_count example_connecting = 0"
    by (simp_all add: example_connecting_def channel_open_def sent_count_def)
  note t1 = paced_advance_signals [OF exec_example_connected]
  note t2 = paced_advance_signals [OF exec_example_running, where t = 1 and d = 100]
  note t3 = paced_advance_signals [OF exec_example_connecting, where e = CallSendStep]
  have "intervals (handle App_onMessage (Render (simId example_connected)
      (onMessage_id example_connected) True) example_connected) =
      [(next_timer example_connected, now example_connected + 100)]"
    using t1 w1(1,2,3) by blast
  then have A: "intervals (handle App_onMessage (Render (Some ''sim1'') 0 True)
      example_connected) = [(1, 100)]"
    unfolding w1 by simp
  from t2 w2(1)
  have "intervals (handle App_onMessage (FireInterval 1) example_running) = [(1, 100 + 100)]"
    by blast
  then have B1: "intervals (handle App_onMessage (FireInterval 1) example_running) = [(1, 200)]"
    by simp
  from t2 w2(1,2) have "sent_count (handle App_onMessage (FireInterval 1) example_running) =
      sent_count example_running + 1"
    by blast
  then have B2: "sent_count (handle App_onMessage (FireInterval 1) example_running) = 1"
    unfolding w2(3) by simp
  from t3 w3(1) have C1: "intervals example_connecting = []"
    by blast
  from t3 w3(3) have "sent_count (handle App_onMessage CallSendStep example_connecting) =
      sent_count example_connecting"
    by blast
  then have C2: "sent_count (handle App_onMessage CallSendStep example_connecting) = 0"
    unfolding w3(4) .
  show ?thesis
    by (intro conjI exec_example_connected exec_example_running exec_example_started
        exec_example_connecting w1 w2 w3 w4(1,2,3,4) A B1 B2 C1 C2 D1 D2)
qed


subsection \<open>Inbound messages\<close>

lemma handle_WsMessage:
  assumes "hook_inv s"
  shows "handle h (WsMessage i d) s = snd (ws_onmessage h d s)"
proof -
  have "settled (snd (ws_onmessage h d s))"
    using hook_inv_settled [OF assms] by (simp add: settled_def ws_onmessage_facts)
  then show ?thesis by (simp add: rerender_settled)
qed

lemma ws_onmessage_control:
  "get_prop j ''type'' = Inr (Some (JStr ''ping'')) \<or> get_prop j ''type'' = Inr (Some (JStr ''pong''))
   \<Longrightarrow> ws_onmessage h (Inr j) s = (None, s)"
  by (auto simp: ws_onmessage_def try_catch_def)

lemma get_prop_not_null: "j \<noteq> JNull \<Longrightarrow> \<exists>v. get_prop j k = Inr v"
  by (cases j) (simp_all add: get_prop_def)

lemma ws_onmessage_snapshot:
  assumes "j \<noteq> JNull" and "get_prop j ''type'' \<noteq> Inr (Some (JStr ''ping''))"
    and "get_prop j ''type'' \<noteq> Inr (Some (JStr ''pong''))"
  shows "handler_calls (snd (ws_onmessage h (Inr j) s)) = handler_calls s @ [j] \<and>
         app (snd (ws_onmessage h (Inr j) s)) = snd (h j (app s)) \<and>
         sockets (snd (ws_onmessage h (Inr j) s)) = sockets s"
proof -
  from get_prop_not_null [OF assms(1)] obtain v where v: "get_prop j ''type'' = Inr v"
    by blast
  show ?thesis
    using assms(2,3)
    by (cases "h j (app s)"; cases "fst (h j (app s))")
      (simp_all add: ws_onmessage_def try_catch_def console_error_def v)
qed

lemma get_prop_step_object:
  "''type'' \<notin> fst ` set rest \<Longrightarrow> get_prop (JObj ((''step'', JNum 1) # rest)) ''type'' = Inr None"
  by (simp add: get_prop_def map_add_def map_of_eq_None_iff [THEN iffD2] split: option.splits)

text \<open>
  C3.  In every state the hook can reach, for a message arriving on an open socket: when
  the \<open>type\<close> of the parsed message is \<open>ping\<close> or \<open>pong\<close> nothing changes, so the
  handler is not called; every other parsed message that is not \<open>null\<close> (in particular
  every JSON object) is handed to the handler exactly once; and the stream of
  \<open>{type: ping}\<close>, \<open>{step: 1, ...}\<close>, \<open>{type: pong}\<close> results in exactly one call, with
  the second message.
\<close>

theorem control_messages_filtered:
  assumes "exec h es (init a) = Some s"
    and "i < length (sockets s)" and "readyState (sockets s ! i) = OPEN"
  shows "(get_prop j ''type'' = Inr (Some (JStr ''ping'')) \<or>
          get_prop j ''type'' = Inr (Some (JStr ''pong'')) \<longrightarrow>
            handle h (WsMessage i (Inr j)) s = s) \<and>
         (j \<noteq> JNull \<and> get_prop j ''type'' \<noteq> Inr (Some (JStr ''ping'')) \<and>
          get_prop j ''type'' \<noteq> Inr (Some (JStr ''pong'')) \<longrightarrow>
            handler_calls (handle h (WsMessage i (Inr j)) s) = handler_calls s @ [j] \<and>
            app (handle h (WsMessage i (Inr j)) s) = snd (h j (app s))) \<and>
         (''type'' \<notin> fst ` set rest \<longrightarrow>
            map_option handler_calls
              (exec h [WsMessage i (Inr (JObj [(''type'', JStr ''ping'')])),
                       WsMessage i (Inr (JObj ((''step'', JNum 1) # rest))),
                       WsMessage i (Inr (JObj [(''type'', JStr ''pong'')]))] s) =
            Some (handler_calls s @ [JObj ((''step'', JNum 1) # rest)]))"
proof -
  have inv: "hook_inv s" using assms(1) by (rule exec_inv)
  have A: "handle h (WsMessage i (Inr j)) s = s"
    if "get_prop j ''type'' = Inr (Some (JStr ''ping'')) \<or>
        get_prop j ''type'' = Inr (Some (JStr ''pong''))" for j
    using ws_onmessage_control [OF that, of h s]
    by (simp add: handle_WsMessage [OF inv] del: handle.simps)
  have B: "handler_calls (handle h (WsMessage i (Inr j)) s) = handler_calls s @ [j] \<and>
      app (handle h (WsMessage i (Inr j)) s) = snd (h j (app s)) \<and>
      sockets (handle h (WsMessage i (Inr j)) s) = sockets s"
    if "j \<noteq> JNull" "get_prop j ''type'' \<noteq> Inr (Some (JStr ''ping''))"
      "get_prop j ''type'' \<noteq> Inr (Some (JStr ''pong''))" for j
    using ws_onmessage_snapshot [OF that, of h s]
    by (simp add: handle_WsMessage [OF inv] del: handle.simps)
  have C: "map_option handler_calls
              (exec h [WsMessage i (Inr (JObj [(''type'', JStr ''ping'')])),
                       WsMessage i (Inr (JObj ((''step'', JNum 1) # rest))),
                       WsMessage i (Inr (JObj [(''type'', JStr ''pong'')]))] s) =
            Some (handler_calls s @ [JObj ((''step'', JNum 1) # rest)])"
    if r: "''type'' \<notin> fst ` set rest"
  proof -
    let ?snap = "JObj ((''step'', JNum 1) # rest)"
    define s2 where "s2 = handle h (WsMessage i (Inr ?snap)) s"
    have 1: "handle h (WsMessage i (Inr (JObj [(''type'', JStr ''ping'')]))) s = s"
      by (rule A) (simp add: get_prop_def)
    have 2: "handler_calls s2 = handler_calls s @ [?snap]" "sockets s2 = sockets s"
      using B [of ?snap] get_prop_step_object [OF r] by (simp_all add: s2_def)
    have inv2: "hook_inv s2" unfolding s2_def using inv by (rule handle_inv)
    have 3: "handle h (WsMessage i (Inr (JObj [(''type'', JStr ''pong'')]))) s2 = s2"
      using ws_onmessage_control [of "JObj [(''type'', JStr ''pong'')]" h s2]
      by (simp add: handle_WsMessage [OF inv2] get_prop_def del: handle.simps)
    show ?thesis
      using assms(2,3) 1 2 3
      by (simp add: step_def s2_def [symmetric] del: handle.simps)
  qed
  show ?thesis using A B C by blast
qed

theorem control_messages_filtered_witness:
  "exec App_onMessage [Render (Some ''sim1'') 0 False, WsOpen 0] (init app0) =
     Some example_connected \<and>
   0 < length (sockets example_connected) \<and>
   readyState (sockets example_connected ! 0) = OPEN \<and>
   get_prop (JObj [(''type'', JStr ''ping'')]) ''type'' = Inr (Some (JStr ''ping'')) \<and>
   handle App_onMessage (WsMessage 0 (Inr (JObj [(''type'', JStr ''ping'')]))) example_connected =
     example_connected \<and>
   JObj [(''steps'', JNum 4)] \<noteq> JNull \<and>
   handler_calls (handle App_onMessage (WsMessage 0 (Inr (JObj [(''steps'', JNum 4)])))
     example_connected) = [JObj [(''steps'', JNum 4)]] \<and>
   ''type'' \<notin> fst ` set [(''vehicles'', JArr [])] \<and>
   map_option handler_calls
     (exec App_onMessage
        [WsMessage 0 (Inr (JObj [(''type'', JStr ''ping'')])),
         WsMessage 0 (Inr (JObj [(''step'', JNum 1), (''vehicles'', JArr [])])),
         WsMessage 0 (Inr (JObj [(''type'', JStr ''pong'')]))] example_connected) =
     Some [JObj [(''step'', JNum 1), (''vehicles'', JArr [])]]"
proof -
  have s: "0 < length (sockets example_connected)"
    "readyState (sockets example_connected ! 0) = OPEN"
    "handler_calls example_connected = []"
    by (simp_all add: example_connected_def example_connecting_def)
  note t = control_messages_filtered [OF exec_example_connected s(1,2)]
  have g: "get_prop (JObj [(''type'', JStr ''ping'')]) ''type'' = Inr (Some (JStr ''ping''))"
    "get_prop (JObj [(''steps'', JNum 4)]) ''type'' = Inr None"
    by (simp_all add: get_prop_def)
  from t [where j = "JObj [(''type'', JStr ''ping'')]"] g(1)
  have 1: "handle App_onMessage (WsMessage 0 (Inr (JObj [(''type'', JStr ''ping'')])))
      example_connected = example_connected"
    by blast
  have h: "JObj [(''steps'', JNum 4)] \<noteq> JNull \<and>
      get_prop (JObj [(''steps'', JNum 4)]) ''type'' \<noteq> Inr (Some (JStr ''ping'')) \<and>
      get_prop (JObj [(''steps'', JNum 4)]) ''type'' \<noteq> Inr (Some (JStr ''pong''))"
    by (simp add: g)
  from t [where j = "JObj [(''steps'', JNum 4)]"] h
  have "handler_calls (handle App_onMessage (WsMessage 0 (Inr (JObj [(''steps'', JNum 4)])))
     example_connected) = handler_calls example_connected @ [JObj [(''steps'', JNum 4)]]"
    by blast
  then have 2: "handler_calls (handle App_onMessage
      (WsMessage 0 (Inr (JObj [(''steps'', JNum 4)]))) example_connected) =
      [JObj [(''steps'', JNum 4)]]"
    unfolding s(3) by simp
  have r: "''type'' \<notin> fst ` set [(''vehicles'', JArr [])]"
    by simp
  from t [where rest = "[(''vehicles'', JArr [])]"] r
  have "map_option handler_calls
     (exec App_onMessage
        [WsMessage 0 (Inr (JObj [(''type'', JStr ''ping'')])),
         WsMessage 0 (Inr (JObj [(''step'', JNum 1), (''vehicles'', JArr [])])),
         WsMessage 0 (Inr (JObj [(''type'', JStr ''pong'')]))] example_connected) =
     Some (handler_calls example_connected @ [JObj [(''step'', JNum 1), (''vehicles'', JArr [])]])"
    by blast
  then have 3: "map_option handler_calls
     (exec App_onMessage
        [WsMessage 0 (Inr (JObj [(''type'', JStr ''ping'')])),
         WsMessage 0 (Inr (JObj [(''step'', JNum 1), (''vehicles'', JArr [])])),
         WsMessage 0 (Inr (JObj [(''type'', JStr ''pong'')]))] example_connected) =
     Some [JObj [(''step'', JNum 1), (''vehicles'', JArr [])]]"
    unfolding s(3) by simp
  show ?thesis
    by (intro conjI exec_example_connected s(1,2) g(1) 1 2 3 r) simp
qed

text \<open>
  C8.  In every state the hook (with the callback of \<open>App\<close>) can reach, a message
  whose body \<open>JSON.parse\<close> rejects leaves the callback without an exception and changes
  nothing but the console: the handler is not called, the socket and the timers are as
  before, and the snapshot held by \<open>App\<close> stays; the next message that parses to a
  snapshot replaces it.
\<close>

theorem malformed_message_ignored:
  assumes "exec App_onMessage es (init a) = Some s"
  shows "fst (ws_onmessage App_onMessage (Inl e) s) = None \<and>
         handle App_onMessage (WsMessage i (Inl e)) s =
           s\<lparr>console := console s @ [''Error parsing WebSocket message:'']\<rparr> \<and>
         (j \<noteq> JNull \<and> get_prop j ''type'' \<noteq> Inr (Some (JStr ''ping'')) \<and>
          get_prop j ''type'' \<noteq> Inr (Some (JStr ''pong'')) \<longrightarrow>
            simulationState (app (handle App_onMessage (WsMessage i (Inr j))
              (handle App_onMessage (WsMessage i (Inl e)) s))) = j)"
proof -
  have inv: "hook_inv s" using assms by (rule exec_inv)
  have 1: "ws_onmessage App_onMessage (Inl e) s =
      (None, s\<lparr>console := console s @ [''Error parsing WebSocket message:'']\<rparr>)"
    by (simp add: ws_onmessage_def try_catch_def console_error_def)
  have 2: "handle App_onMessage (WsMessage i (Inl e)) s =
           s\<lparr>console := console s @ [''Error parsing WebSocket message:'']\<rparr>"
    unfolding handle_WsMessage [OF inv] 1 by simp
  have inv2: "hook_inv (handle App_onMessage (WsMessage i (Inl e)) s)"
    using inv by (rule handle_inv)
  have 3: "simulationState (app (handle App_onMessage (WsMessage i (Inr j))
              (handle App_onMessage (WsMessage i (Inl e)) s))) = j"
    if j: "j \<noteq> JNull" "get_prop j ''type'' \<noteq> Inr (Some (JStr ''ping''))"
      "get_prop j ''type'' \<noteq> Inr (Some (JStr ''pong''))"
  proof -
    from get_prop_not_null [OF j(1)] obtain m hm where
      "get_prop j ''metrics'' = Inr m" "get_prop j ''historical_metrics'' = Inr hm"
      by blast
    then have "simulationState (snd (App_onMessage j x)) = j" for x
      by (simp add: App_onMessage_def Let_def)
    then show ?thesis
      unfolding handle_WsMessage [OF inv2]
      using ws_onmessage_snapshot [OF j, of App_onMessage
          "handle App_onMessage (WsMessage i (Inl e)) s"]
      by simp
  qed
  show ?thesis using 1 2 3 by simp
qed

theorem malformed_message_ignored_witness:
  "exec App_onMessage [Render (Some ''sim1'') 0 False, WsOpen 0] (init app0) =
     Some example_connected \<and>
   fst (ws_onmessage App_onMessage (Inl SyntaxError) example_connected) = None \<and>
   handle App_onMessage (WsMessage 0 (Inl SyntaxError)) example_connected =
     example_connected\<lparr>console := [''Error parsing WebSocket message:'']\<rparr> \<and>
   JObj [(''steps'', JNum 4)] \<noteq> JNull \<and>
   simulationState (app (handle App_onMessage (WsMessage 0 (Inr (JObj [(''steps'', JNum 4)])))
     (handle App_onMessage (WsMessage 0 (Inl SyntaxError)) example_connected))) =
     JObj [(''steps'', JNum 4)]"
proof -
  note t = malformed_message_ignored [OF exec_example_connected, where e = SyntaxError
      and i = 0 and j = "JObj [(''steps'', JNum 4)]"]
  have c: "console example_connected = []"
    by (simp add: example_connected_def example_connecting_def)
  have g: "get_prop (JObj [(''steps'', JNum 4)]) ''type'' = Inr None"
    by (simp add: get_prop_def)
  from t have 1: "fst (ws_onmessage App_onMessage (Inl SyntaxError) example_connected) = None"
    by blast
  from t have "handle App_onMessage (WsMessage 0 (Inl SyntaxError)) example_connected =
     example_connected\<lparr>console := console example_connected @
       [''Error parsing WebSocket message:'']\<rparr>"
    by blast
  then have 2: "handle App_onMessage (WsMessage 0 (Inl SyntaxError)) example_connected =
     example_connected\<lparr>console := [''Error parsing WebSocket message:'']\<rparr>"
    unfolding c by simp
  have h: "JObj [(''steps'', JNum 4)] \<noteq> JNull \<and>
      get_prop (JObj [(''steps'', JNum 4)]) ''type'' \<noteq> Inr (Some (JStr ''ping'')) \<and>
      get_prop (JObj [(''steps'', JNum 4)]) ''type'' \<noteq> Inr (Some (JStr ''pong''))"
    by (simp add: g)
  from t h have 3: "simulationState (app (handle App_onMessage
       (WsMessage 0 (Inr (JObj [(''steps'', JNum 4)])))
     (handle App_onMessage (WsMessage 0 (Inl SyntaxError)) example_connected))) =
     JObj [(''steps'', JNum 4)]"
    by blast
  show ?thesis
    by (intro conjI exec_example_connected 1 2 3) simp
qed

subsection \<open>Reconnection\<close>

text \<open>
  C1.  The claim fails on the code.  A hook is mounted for \<open>sim1\<close> and its socket opens;
  the component unmounts, so the cleanup calls \<open>disconnect\<close>, after which no timer is
  pending and the socket is closing.  The close event of that socket then runs
  \<open>ws.onclose\<close>, which schedules a reconnect 2000 ms later; the timer cannot fire after
  1999 ms, and after 2000 ms it fires and \<open>connect\<close> opens a new socket, after the
  teardown.  The same happens when \<open>disconnect\<close> is called on a mounted hook.
\<close>

theorem reconnect_after_teardown:
  "map_option (\<lambda>s. (life s, timeouts s, map readyState (sockets s)))
     (exec App_onMessage [Render (Some ''sim1'') 0 False, WsOpen 0, Unmount] (init app0)) =
     Some (Unmounted, [], [CLOSING]) \<and>
   map_option (\<lambda>s. (life s, timeouts s, map readyState (sockets s)))
     (exec App_onMessage [Render (Some ''sim1'') 0 False, WsOpen 0, Unmount, WsClose 0]
        (init app0)) =
     Some (Unmounted, [(1, 2000, Some ''sim1'')], [CLOSED]) \<and>
   exec App_onMessage [Render (Some ''sim1'') 0 False, WsOpen 0, Unmount, WsClose 0,
        Elapse 1999, FireTimeout 1] (init app0) = None \<and>
   map_option (\<lambda>s. (life s, timeouts s, map readyState (sockets s), wsRef s))
     (exec App_onMessage [Render (Some ''sim1'') 0 False, WsOpen 0, Unmount, WsClose 0,
        Elapse 2000, FireTimeout 1] (init app0)) =
     Some (Unmounted, [], [CLOSED, CONNECTING], Some 1) \<and>
   map_option (\<lambda>s. (life s, timeouts s, map readyState (sockets s), wsRef s))
     (exec App_onMessage [Render (Some ''sim1'') 0 False, WsOpen 0, CallDisconnect, WsClose 0,
        Elapse 2000, FireTimeout 1] (init app0)) =
     Some (Mounted, [], [CLOSED, CONNECTING], Some 1)"
  by (simp add: hook_defs)

text \<open>
  What does hold: a close event schedules one retry, due 2000 ms later, and records it;
  \<open>disconnect\<close> cancels the retry that is recorded.
\<close>

lemma ws_onclose_schedules_one_retry:
  "c \<noteq> [] \<Longrightarrow>
   timeouts (ws_onclose (Some c) s) = timeouts s @ [(next_timer s, now s + 2000, Some c)] \<and>
   reconnectTimeoutRef (ws_onclose (Some c) s) = Some (next_timer s)"
  by (simp add: ws_onclose_def Let_def truthy_id_def clearInterval_def split: option.splits)

lemma disconnect_clears_recorded_retry:
  "reconnectTimeoutRef s = Some t \<Longrightarrow> t \<notin> fst ` set (timeouts (disconnect s))"
  by (auto simp: disconnect_def Let_def clearTimeout_def clearInterval_def ws_close_def
      split: option.splits)

section \<open>Session orchestrator: proofs\<close>

lemma sendStep_effect:
  \<open>app (sendStep s) = app s \<and> console (sendStep s) = console s \<and>
   (\<not> channel_open s \<longrightarrow> sendStep s = s) \<and>
   (channel_open s \<longrightarrow>
      (case wsRef s of
         Some i \<Rightarrow> outbox (sockets (sendStep s) ! i) = outbox (sockets s ! i) @ [''{"type":"step"}'']
       | None \<Rightarrow> False))\<close>
  by (auto simp: sendStep_def channel_open_def step_msg_def split: option.splits)

text \<open>
  C9, as amended.  For a call of \<open>handleStep\<close> while a simulation identifier is held:
  when \<open>isConnected\<close> holds, the request is exactly a call of the channel's \<open>sendStep\<close>
  and no request of the Control Client is made, nothing is logged and the held snapshot
  stays; \<open>sendStep\<close> sends exactly one \<open>{"type":"step"}\<close> on the current socket when
  that socket is open, and changes nothing when it is not.  When \<open>isConnected\<close> does not
  hold, nothing is sent on the channel and the request to advance by 10 steps is issued
  through the Control Client; if it succeeds, exactly one snapshot fetch follows; if the
  fetch succeeds too, its result replaces the held snapshot.  When either request is
  rejected, the rejection is logged once, no further request is made and the held snapshot
  stays.  Without a simulation identifier \<open>handleStep\<close> does nothing.
\<close>

theorem manual_advance:
  \<open>(\<not> truthy_id (simId s) \<longrightarrow> handleStep stepped fetched s = s) \<and>
   (truthy_id (simId s) \<and> isConnected s \<longrightarrow>
      handleStep stepped fetched s = sendStep s \<and>
      requests (app (handleStep stepped fetched s)) = requests (app s) \<and>
      (channel_open s \<longrightarrow> sent_count (handleStep stepped fetched s) = sent_count s + 1) \<and>
      app (handleStep stepped fetched s) = app s \<and>
      console (handleStep stepped fetched s) = console s \<and>
      (channel_open s \<longrightarrow>
         (case wsRef s of
            Some i \<Rightarrow>
              outbox (sockets (handleStep stepped fetched s) ! i) =
                outbox (sockets s ! i) @ [''{"type":"step"}'']
          | None \<Rightarrow> False)) \<and>
      (\<not> channel_open s \<longrightarrow> handleStep stepped fetched s = s)) \<and>
   (simId s = Some sid \<and> sid \<noteq> [] \<and> \<not> isConnected s \<longrightarrow>
      sockets (handleStep stepped fetched s) = sockets s \<and>
      requests (app (handleStep stepped fetched s)) =
        requests (app s) @ StepSimulation sid 10 #
          (case stepped of Inl _ \<Rightarrow> [] | Inr _ \<Rightarrow> [GetSimulationState sid]) \<and>
      simulationState (app (handleStep stepped fetched s)) =
        (case stepped of
           Inl _ \<Rightarrow> simulationState (app s)
         | Inr _ \<Rightarrow> (case fetched of Inl _ \<Rightarrow> simulationState (app s) | Inr data \<Rightarrow> data)) \<and>
      console (handleStep stepped fetched s) =
        console s @
          (case stepped of
             Inl _ \<Rightarrow> [''Error stepping simulation:'']
           | Inr _ \<Rightarrow> (case fetched of Inl _ \<Rightarrow> [''Error stepping simulation:''] | Inr _ \<Rightarrow> [])))\<close>
proof -
  have 1: "handleStep stepped fetched s = s" if "\<not> truthy_id (simId s)"
    using that by (simp add: handleStep_def truthy_id_def split: option.splits)
  have 2: "handleStep stepped fetched s = sendStep s" if "truthy_id (simId s)" "isConnected s"
    using that by (simp add: handleStep_def truthy_id_def split: option.splits)
  have 3: "requests (app (sendStep s)) = requests (app s)"
    by (simp add: sendStep_def split: option.splits)
  have 4: "sockets (handleStep stepped fetched s) = sockets s \<and>
      requests (app (handleStep stepped fetched s)) =
        requests (app s) @ StepSimulation sid 10 #
          (case stepped of Inl _ \<Rightarrow> [] | Inr _ \<Rightarrow> [GetSimulationState sid]) \<and>
      simulationState (app (handleStep stepped fetched s)) =
        (case stepped of
           Inl _ \<Rightarrow> simulationState (app s)
         | Inr _ \<Rightarrow> (case fetched of Inl _ \<Rightarrow> simulationState (app s) | Inr data \<Rightarrow> data)) \<and>
      console (handleStep stepped fetched s) =
        console s @
          (case stepped of
             Inl _ \<Rightarrow> [''Error stepping simulation:'']
           | Inr _ \<Rightarrow> (case fetched of Inl _ \<Rightarrow> [''Error stepping simulation:''] | Inr _ \<Rightarrow> []))"
    if "simId s = Some sid" "sid \<noteq> []" "\<not> isConnected s"
    using that by (simp add: handleStep_def Let_def split: sum.splits)
  have 5: \<open>handleStep stepped fetched s = sendStep s \<and>
      requests (app (handleStep stepped fetched s)) = requests (app s) \<and>
      (channel_open s \<longrightarrow> sent_count (handleStep stepped fetched s) = sent_count s + 1) \<and>
      app (handleStep stepped fetched s) = app s \<and>
      console (handleStep stepped fetched s) = console s \<and>
      (channel_open s \<longrightarrow>
         (case wsRef s of
            Some i \<Rightarrow>
              outbox (sockets (handleStep stepped fetched s) ! i) =
                outbox (sockets s ! i) @ [''{"type":"step"}'']
          | None \<Rightarrow> False)) \<and>
      (\<not> channel_open s \<longrightarrow> handleStep stepped fetched s = s)\<close>
    if "truthy_id (simId s)" "isConnected s"
    unfolding 2 [OF that]
    using 3 sent_count_sendStep_open [of s] sendStep_effect [of s] by blast
  show ?thesis
    using 1 4 5 by blast
qed

theorem manual_advance_witness:
  \<open>\<not> truthy_id (simId (init app0)) \<and>
   handleStep (Inr ()) (Inr (JObj [(''steps'', JNum 10)])) (init app0) = init app0 \<and>
   truthy_id (simId example_connected) \<and> isConnected example_connected \<and>
   channel_open example_connected \<and>
   requests (app (handleStep (Inr ()) (Inr (JObj [(''steps'', JNum 10)])) example_connected)) = [] \<and>
   sent_count (handleStep (Inr ()) (Inr (JObj [(''steps'', JNum 10)])) example_connected) = 1 \<and>
   outbox (sockets (handleStep (Inr ()) (Inr (JObj [(''steps'', JNum 10)])) example_connected) ! 0) =
     [''{"type":"step"}''] \<and>
   truthy_id (simId example_stale) \<and> isConnected example_stale \<and>
   \<not> channel_open example_stale \<and>
   handleStep (Inr ()) (Inr (JObj [(''steps'', JNum 10)])) example_stale = example_stale \<and>
   simId example_connecting = Some ''sim1'' \<and> ''sim1'' \<noteq> [] \<and>
   \<not> isConnected example_connecting \<and>
   requests (app (handleStep (Inr ()) (Inr (JObj [(''steps'', JNum 10)])) example_connecting)) =
     [StepSimulation ''sim1'' 10, GetSimulationState ''sim1''] \<and>
   simulationState (app (handleStep (Inr ()) (Inr (JObj [(''steps'', JNum 10)]))
     example_connecting)) = JObj [(''steps'', JNum 10)] \<and>
   console (handleStep (Inr ()) (Inr (JObj [(''steps'', JNum 10)])) example_connecting) = [] \<and>
   requests (app (handleStep (Inl AxiosError) (Inr (JObj [(''steps'', JNum 10)]))
     example_connecting)) = [StepSimulation ''sim1'' 10] \<and>
   simulationState (app (handleStep (Inl AxiosError) (Inr (JObj [(''steps'', JNum 10)]))
     example_connecting)) = JObj [] \<and>
   console (handleStep (Inl AxiosError) (Inr (JObj [(''steps'', JNum 10)])) example_connecting) =
     [''Error stepping simulation:'']\<close>
proof -
  have a: "\<not> truthy_id (simId (init app0))"
    by (simp add: init_def truthy_id_def)
  have b: "truthy_id (simId example_connected)" "isConnected example_connected"
    "channel_open example_connected" "requests (app example_connected) = []"
    "sent_count example_connected = 0" "wsRef example_connected = Some 0"
    "outbox (sockets example_connected ! 0) = []"
    by (simp_all add: example_connected_def example_connecting_def truthy_id_def
        channel_open_def app0_def sent_count_def)
  have c: "simId example_connecting = Some ''sim1''" "''sim1'' \<noteq> []"
    "\<not> isConnected example_connecting" "requests (app example_connecting) = []"
    "simulationState (app example_connecting) = JObj []" "console example_connecting = []"
    by (simp_all add: example_connecting_def app0_def)
  have d: "truthy_id (simId example_stale)" "isConnected example_stale"
    "\<not> channel_open example_stale"
    by (simp_all add: example_stale_def example_connected_def example_connecting_def
        truthy_id_def channel_open_def)
  note t1 = manual_advance [where s = "init app0" and stepped = "Inr ()"
      and fetched = "Inr (JObj [(''steps'', JNum 10)])"]
  note t2 = manual_advance [where s = example_connected and stepped = "Inr ()"
      and fetched = "Inr (JObj [(''steps'', JNum 10)])"]
  note t3 = manual_advance [where s = example_connecting and sid = "''sim1''"
      and stepped = "Inr ()" and fetched = "Inr (JObj [(''steps'', JNum 10)])"]
  note t4 = manual_advance [where s = example_connecting and sid = "''sim1''"
      and stepped = "Inl AxiosError" and fetched = "Inr (JObj [(''steps'', JNum 10)])"]
  note t5 = manual_advance [where s = example_stale and stepped = "Inr ()"
      and fetched = "Inr (JObj [(''steps'', JNum 10)])"]
  from t1 a have 1: "handleStep (Inr ()) (Inr (JObj [(''steps'', JNum 10)])) (init app0) = init app0"
    by blast
  from t2 b(1,2) have "requests (app (handleStep (Inr ()) (Inr (JObj [(''steps'', JNum 10)]))
      example_connected)) = requests (app example_connected)"
    by blast
  then have 2: "requests (app (handleStep (Inr ()) (Inr (JObj [(''steps'', JNum 10)]))
      example_connected)) = []"
    unfolding b(4) .
  from t2 b(1,2,3) have "sent_count (handleStep (Inr ()) (Inr (JObj [(''steps'', JNum 10)]))
      example_connected) = sent_count example_connected + 1"
    by blast
  then have 3: "sent_count (handleStep (Inr ()) (Inr (JObj [(''steps'', JNum 10)]))
      example_connected) = 1"
    unfolding b(5) by simp
  from t2 b(1,2,3) have \<open>case wsRef example_connected of
       Some i \<Rightarrow>
         outbox (sockets (handleStep (Inr ()) (Inr (JObj [(''steps'', JNum 10)]))
           example_connected) ! i) = outbox (sockets example_connected ! i) @ [''{"type":"step"}'']
     | None \<Rightarrow> False\<close>
    by blast
  then have 4: \<open>outbox (sockets (handleStep (Inr ()) (Inr (JObj [(''steps'', JNum 10)]))
      example_connected) ! 0) = [''{"type":"step"}'']\<close>
    unfolding b(6) by (simp add: b(7))
  from t5 d have 5: "handleStep (Inr ()) (Inr (JObj [(''steps'', JNum 10)])) example_stale =
      example_stale"
    by blast
  from t3 c(1,2,3) have "requests (app (handleStep (Inr ()) (Inr (JObj [(''steps'', JNum 10)]))
       example_connecting)) =
     requests (app example_connecting) @ StepSimulation ''sim1'' 10 #
       (case (Inr () :: js_error + unit) of Inl _ \<Rightarrow> [] | Inr _ \<Rightarrow> [GetSimulationState ''sim1''])"
    by blast
  then have 6: "requests (app (handleStep (Inr ()) (Inr (JObj [(''steps'', JNum 10)]))
       example_connecting)) = [StepSimulation ''sim1'' 10, GetSimulationState ''sim1'']"
    unfolding c(4) by simp
  from t3 c(1,2,3) have "simulationState (app (handleStep (Inr ())
       (Inr (JObj [(''steps'', JNum 10)])) example_connecting)) =
     (case (Inr () :: js_error + unit) of
        Inl _ \<Rightarrow> simulationState (app example_connecting)
      | Inr _ \<Rightarrow> (case (Inr (JObj [(''steps'', JNum 10)]) :: js_error + json) of
           Inl _ \<Rightarrow> simulationState (app example_connecting) | Inr data \<Rightarrow> data))"
    by blast
  then have 7: "simulationState (app (handleStep (Inr ()) (Inr (JObj [(''steps'', JNum 10)]))
     example_connecting)) = JObj [(''steps'', JNum 10)]"
    by simp
  from t3 c(1,2,3) have "console (handleStep (Inr ()) (Inr (JObj [(''steps'', JNum 10)]))
       example_connecting) =
     console example_connecting @
       (case (Inr () :: js_error + unit) of
          Inl _ \<Rightarrow> [''Error stepping simulation:'']
        | Inr _ \<Rightarrow> (case (Inr (JObj [(''steps'', JNum 10)]) :: js_error + json) of
             Inl _ \<Rightarrow> [''Error stepping simulation:''] | Inr _ \<Rightarrow> []))"
    by blast
  then have 8: "console (handleStep (Inr ()) (Inr (JObj [(''steps'', JNum 10)]))
       example_connecting) = []"
    unfolding c(6) by simp
  from t4 c(1,2,3) have "requests (app (handleStep (Inl AxiosError)
       (Inr (JObj [(''steps'', JNum 10)])) example_connecting)) =
     requests (app example_connecting) @ StepSimulation ''sim1'' 10 #
       (case (Inl AxiosError :: js_error + unit) of
          Inl _ \<Rightarrow> [] | Inr _ \<Rightarrow> [GetSimulationState ''sim1''])"
    by blast
  then have 9: "requests (app (handleStep (Inl AxiosError) (Inr (JObj [(''steps'', JNum 10)]))
       example_connecting)) = [StepSimulation ''sim1'' 10]"
    unfolding c(4) by simp
  from t4 c(1,2,3) have "simulationState (app (handleStep (Inl AxiosError)
       (Inr (JObj [(''steps'', JNum 10)])) example_connecting)) =
     (case (Inl AxiosError :: js_error + unit) of
        Inl _ \<Rightarrow> simulationState (app example_connecting)
      | Inr _ \<Rightarrow> (case (Inr (JObj [(''steps'', JNum 10)]) :: js_error + json) of
           Inl _ \<Rightarrow> simulationState (app example_connecting) | Inr data \<Rightarrow> data))"
    by blast
  then have 10: "simulationState (app (handleStep (Inl AxiosError)
       (Inr (JObj [(''steps'', JNum 10)])) example_connecting)) = JObj []"
    unfolding c(5) by simp
  from t4 c(1,2,3) have "console (handleStep (Inl AxiosError) (Inr (JObj [(''steps'', JNum 10)]))
       example_connecting) =
     console example_connecting @
       (case (Inl AxiosError :: js_error + unit) of
          Inl _ \<Rightarrow> [''Error stepping simulation:'']
        | Inr _ \<Rightarrow> (case (Inr (JObj [(''steps'', JNum 10)]) :: js_error + json) of
             Inl _ \<Rightarrow> [''Error stepping simulation:''] | Inr _ \<Rightarrow> []))"
    by blast
  then have 11: "console (handleStep (Inl AxiosError) (Inr (JObj [(''steps'', JNum 10)]))
       example_connecting) = [''Error stepping simulation:'']"
    unfolding c(6) by simp
  show ?thesis
    by (intro conjI a b(1,2,3) c(1,2,3) d 1 2 3 4 5 6 7 8 9 10 11)
qed

text \<open>
  The claim as stated fails in three cases.  When the request to advance is rejected, no
  snapshot is fetched and the held snapshot stays; when the fetch is rejected, the held
  snapshot stays; each rejection is logged.  And when \<open>isConnected\<close> holds while the current socket is not open,
  here after a manual reconnect, nothing is sent on the channel and no request of the
  Control Client is made either.
\<close>

theorem manual_advance_counterexample:
  "exec App_onMessage [Render (Some ''sim1'') 0 False] (init app0) = Some example_connecting \<and>
   \<not> isConnected example_connecting \<and> \<not> Connected example_connecting \<and>
   requests (app (handleStep (Inl AxiosError) (Inr (JObj [(''steps'', JNum 10)]))
      example_connecting)) = [StepSimulation ''sim1'' 10] \<and>
   simulationState (app (handleStep (Inl AxiosError) (Inr (JObj [(''steps'', JNum 10)]))
      example_connecting)) = JObj [] \<and>
   console (handleStep (Inl AxiosError) (Inr (JObj [(''steps'', JNum 10)])) example_connecting) =
     [''Error stepping simulation:''] \<and>
   requests (app (handleStep (Inr ()) (Inl AxiosError) example_connecting)) =
     [StepSimulation ''sim1'' 10, GetSimulationState ''sim1''] \<and>
   simulationState (app (handleStep (Inr ()) (Inl AxiosError) example_connecting)) = JObj [] \<and>
   console (handleStep (Inr ()) (Inl AxiosError) example_connecting) =
     [''Error stepping simulation:''] \<and>
   exec App_onMessage [Render (Some ''sim1'') 0 False, WsOpen 0, CallConnect] (init app0) =
     Some example_stale \<and>
   isConnected example_stale \<and> \<not> Connected example_stale \<and>
   requests (app (handleStep (Inr ()) (Inr (JObj [(''steps'', JNum 10)])) example_stale)) = [] \<and>
   map outbox (sockets (handleStep (Inr ()) (Inr (JObj [(''steps'', JNum 10)])) example_stale)) =
     [[], []] \<and>
   simulationState (app (handleStep (Inr ()) (Inr (JObj [(''steps'', JNum 10)])) example_stale)) =
     JObj []"
proof -
  have a: "\<not> isConnected example_connecting" "\<not> Connected example_connecting"
    "requests (app (handleStep (Inl AxiosError) (Inr (JObj [(''steps'', JNum 10)]))
      example_connecting)) = [StepSimulation ''sim1'' 10]"
    "simulationState (app (handleStep (Inl AxiosError) (Inr (JObj [(''steps'', JNum 10)]))
      example_connecting)) = JObj []"
    "console (handleStep (Inl AxiosError) (Inr (JObj [(''steps'', JNum 10)])) example_connecting) =
     [''Error stepping simulation:'']"
    "requests (app (handleStep (Inr ()) (Inl AxiosError) example_connecting)) =
     [StepSimulation ''sim1'' 10, GetSimulationState ''sim1'']"
    "simulationState (app (handleStep (Inr ()) (Inl AxiosError) example_connecting)) = JObj []"
    "console (handleStep (Inr ()) (Inl AxiosError) example_connecting) =
     [''Error stepping simulation:'']"
    by (simp_all add: example_connecting_def handleStep_def Let_def app0_def Connected_def)
  have b: "isConnected example_stale" "\<not> Connected example_stale"
    "requests (app (handleStep (Inr ()) (Inr (JObj [(''steps'', JNum 10)])) example_stale)) = []"
    "map outbox (sockets (handleStep (Inr ()) (Inr (JObj [(''steps'', JNum 10)])) example_stale)) =
     [[], []]"
    "simulationState (app (handleStep (Inr ()) (Inr (JObj [(''steps'', JNum 10)])) example_stale)) =
     JObj []"
    by (simp_all add: example_stale_def example_connected_def example_connecting_def
        handleStep_def sendStep_def Let_def app0_def Connected_def channel_open_def)
  show ?thesis
    by (intro conjI exec_example_connecting exec_example_stale a b)
qed

end
